theory Spec2Isabelle
  imports Complex_Main "HOL-Library.Sublist" "HOL-Library.Char_ord" "HOL-Library.List_Lexorder"
    "HOL-Library.Product_Lexorder"
begin

section \<open>Python values\<close>

text \<open>
  Python \<open>str\<close> values are modelled as \<^typ>\<open>string\<close>, read as text whose code points are
  ASCII. Python \<open>float\<close> values are modelled as exact rationals, Python \<open>int\<close> as
  \<^typ>\<open>int\<close>. The scorers of the \<open>rapidfuzz\<close> package and the transliteration of the
  \<open>unidecode\<close> package are not part of the repository: they are parameters.
\<close>

record fuzz =
  ratio :: "string \<Rightarrow> string \<Rightarrow> rat"
  token_set_ratio :: "string \<Rightarrow> string \<Rightarrow> rat"

datatype json =
    JNull
  | JBool bool
  | JInt int
  | JFloat rat
  | JStr string
  | JArr "json list"
  | JObj "(string \<times> json) list"

datatype py_error = IndexError | ZeroDivisionError | AttributeError | ValueError

subsection \<open>Character classes and \<open>str\<close> methods\<close>

definition is_space :: "char \<Rightarrow> bool" where
  \<comment> \<open>\<open>str.isspace\<close> and the regular expression class \<open>\s\<close> on ASCII.\<close>
  "is_space c \<longleftrightarrow>
     (let n = (of_char c :: nat) in (9 \<le> n \<and> n \<le> 13) \<or> (28 \<le> n \<and> n \<le> 32))"

definition is_digit :: "char \<Rightarrow> bool" where
  \<comment> \<open>the regular expression class \<open>\d\<close> on ASCII.\<close>
  "is_digit c \<longleftrightarrow> (let n = (of_char c :: nat) in 48 \<le> n \<and> n \<le> 57)"

definition is_upper :: "char \<Rightarrow> bool" where
  "is_upper c \<longleftrightarrow> (let n = (of_char c :: nat) in 65 \<le> n \<and> n \<le> 90)"

definition is_lower :: "char \<Rightarrow> bool" where
  "is_lower c \<longleftrightarrow> (let n = (of_char c :: nat) in 97 \<le> n \<and> n \<le> 122)"

definition is_word :: "char \<Rightarrow> bool" where
  \<comment> \<open>the regular expression class \<open>\w\<close> on ASCII: letters, digits and the underscore.\<close>
  "is_word c \<longleftrightarrow> is_upper c \<or> is_lower c \<or> is_digit c \<or> c = CHR ''_''"

definition is_ascii :: "char \<Rightarrow> bool" where
  "is_ascii c \<longleftrightarrow> (of_char c :: nat) < 128"

definition lower_char :: "char \<Rightarrow> char" where
  "lower_char c = (if is_upper c then char_of ((of_char c :: nat) + 32) else c)"

definition lower :: "string \<Rightarrow> string" where
  \<comment> \<open>\<open>str.lower()\<close>\<close>
  "lower s = map lower_char s"

fun split_acc :: "string \<Rightarrow> string \<Rightarrow> string list" where
  "split_acc w [] = (if w = [] then [] else [w])"
| "split_acc w (c # cs) =
     (if is_space c then (if w = [] then split_acc [] cs else w # split_acc [] cs)
      else split_acc (w @ [c]) cs)"

definition split_ws :: "string \<Rightarrow> string list" where
  \<comment> \<open>\<open>str.split()\<close> without arguments: the maximal runs of non-whitespace.\<close>
  "split_ws s = split_acc [] s"

fun join :: "string list \<Rightarrow> string" where
  \<comment> \<open>\<open>' '.join(ws)\<close>\<close>
  "join [] = []"
| "join [w] = w"
| "join (w # v # ws) = w @ CHR '' '' # join (v # ws)"

definition sub_non_word_space :: "string \<Rightarrow> string" where
  \<comment> \<open>\<open>re.sub(r'[^\w\s]', ' ', text)\<close>\<close>
  "sub_non_word_space s = map (\<lambda>c. if is_word c \<or> is_space c then c else CHR '' '') s"

definition truthy_str :: "string option \<Rightarrow> bool" where
  \<comment> \<open>truth value of an optional string: \<open>None\<close> and \<open>''\<close> are false.\<close>
  "truthy_str v = (case v of None \<Rightarrow> False | Some s \<Rightarrow> s \<noteq> [])"

definition truthy_int :: "int option \<Rightarrow> bool" where
  \<comment> \<open>truth value of an optional integer: \<open>None\<close> and \<open>0\<close> are false.\<close>
  "truthy_int v = (case v of None \<Rightarrow> False | Some n \<Rightarrow> n \<noteq> 0)"

definition or_empty :: "string option \<Rightarrow> string" where
  \<comment> \<open>\<open>v or ''\<close>\<close>
  "or_empty v = (case v of None \<Rightarrow> [] | Some s \<Rightarrow> s)"


section \<open>\<open>scripts/matching/bph_ia_agent_match.py\<close>\<close>

definition EMBEDDING_THRESHOLD_HIGH :: rat where "EMBEDDING_THRESHOLD_HIGH = 85 / 100"
definition EMBEDDING_THRESHOLD_MEDIUM :: rat where "EMBEDDING_THRESHOLD_MEDIUM = 75 / 100"
definition EMBEDDING_THRESHOLD_LOW :: rat where "EMBEDDING_THRESHOLD_LOW = 60 / 100"

record BPHWork =
  bph_id :: string
  bph_title :: string
  bph_author :: "string option"
  bph_year :: "int option"
  bph_publisher :: "string option"
  bph_place :: "string option"
  bph_ubn :: "string option"

record IAWork =
  ia_identifier :: string
  ia_title :: string
  ia_creator :: "string option"
  ia_year :: "int option"
  ia_description :: "string option"

datatype tier = High | Medium | Low | Needs_llm

record MatchCandidate =
  cand_bph_work :: BPHWork
  cand_ia_work :: IAWork
  embedding_score :: rat
  fuzzy_score :: rat
  author_match :: bool
  year_match :: bool
  cand_confidence :: tier

text \<open>
  The rationale of a result is a Python string. \<open>Scored pre x post\<close> stands for the
  f-string \<open>pre + format(x, '.3f') + post\<close>; \<open>NonText v\<close> is a value that is not a
  string, stored under \<open>'reasoning'\<close> in the decoded answer of the oracle.
\<close>

datatype rationale = Plain string | Scored string rat string | NonText json

record MatchResult =
  res_bph_work :: BPHWork
  res_ia_work :: "IAWork option"
  is_match :: bool
  res_confidence :: json
  match_type :: string
  reasoning :: rationale
  res_method :: string

record BibliographicMatcher =
  use_llm :: bool
  llm_mode :: string
  ia_works :: "IAWork list"

definition remove_diphthongs :: "string \<Rightarrow> string" where
  \<comment> \<open>\<open>text.replace('\<ae>', 'ae').replace('\<oe>', 'oe')\<close>: the letter \<open>\<ae>\<close> is code point 0xE6;
      \<open>\<oe>\<close> (code point 0x153) has no \<^typ>\<open>char\<close>.\<close>
  "remove_diphthongs s = concat (map (\<lambda>c. if c = CHR 0xE6 then ''ae'' else [c]) s)"

definition normalize_text :: "string \<Rightarrow> string" where
  \<comment> \<open>\<open>unicodedata.normalize('NFKD', text)\<close> leaves ASCII text as it is.\<close>
  "normalize_text text =
     (if text = [] then []
      else join (split_ws (sub_non_word_space (remove_diphthongs (lower text)))))"

fun dated_paren :: "bool \<Rightarrow> string \<Rightarrow> nat option" where
  \<comment> \<open>the match of \<open>[^)]*\d+[^)]*\)\<close> right after an opening parenthesis: its length.\<close>
  "dated_paren d [] = None"
| "dated_paren d (c # cs) =
     (if c = CHR '')'' then (if d then Some 1 else None)
      else map_option Suc (dated_paren (d \<or> is_digit c) cs))"

fun strip_dated :: "nat \<Rightarrow> string \<Rightarrow> string" where
  \<comment> \<open>\<open>re.sub(r'\([^)]*\d+[^)]*\)', '', name)\<close>; the counter is what is left of a match.\<close>
  "strip_dated k [] = []"
| "strip_dated (Suc k) (c # cs) = strip_dated k cs"
| "strip_dated 0 (c # cs) =
     (if c = CHR ''(''
      then (case dated_paren False cs of
              Some n \<Rightarrow> strip_dated n cs
            | None \<Rightarrow> c # strip_dated 0 cs)
      else c # strip_dated 0 cs)"

fun first_long_word :: "string list \<Rightarrow> string" where
  "first_long_word [] = []"
| "first_long_word (w # ws) =
     (let cleaned = filter is_word w
      in if length cleaned > 2 then lower cleaned else first_long_word ws)"

definition extract_surname :: "string \<Rightarrow> string" where
  "extract_surname name =
     (if name = [] then []
      else first_long_word
             (split_ws (takeWhile (\<lambda>c. c \<noteq> CHR '','') (strip_dated 0 name))))"

definition classify :: "bool \<Rightarrow> rat \<Rightarrow> bool \<Rightarrow> bool \<Rightarrow> tier" where
  \<comment> \<open>the \<open>if\<close>/\<open>elif\<close> chain of \<open>find_candidates\<close>\<close>
  "classify llm score am ym =
     (if score \<ge> EMBEDDING_THRESHOLD_HIGH \<and> (am \<or> ym) then High
      else if score \<ge> EMBEDDING_THRESHOLD_MEDIUM \<and> am \<and> ym then High
      else if score \<ge> EMBEDDING_THRESHOLD_HIGH then Medium
      else if score \<ge> EMBEDDING_THRESHOLD_MEDIUM \<and> (am \<or> ym) then Medium
      else if score \<ge> EMBEDDING_THRESHOLD_LOW then (if llm then Needs_llm else Low)
      else Low)"

definition candidate :: "fuzz \<Rightarrow> bool \<Rightarrow> BPHWork \<Rightarrow> rat \<Rightarrow> IAWork \<Rightarrow> MatchCandidate" where
  \<comment> \<open>the body of the loop of \<open>find_candidates\<close> for one search hit\<close>
  "candidate fz llm bph score ia =
     (let bph_norm = normalize_text (bph_title bph);
          bph_surname = extract_surname (or_empty (bph_author bph));
          ia_norm = normalize_text (ia_title ia);
          fuzzy = token_set_ratio fz bph_norm ia_norm;
          ia_surname = extract_surname (or_empty (ia_creator ia));
          am = (bph_surname \<noteq> [] \<and> ia_surname \<noteq> [] \<and> ratio fz bph_surname ia_surname \<ge> 80);
          ym = (truthy_int (bph_year bph) \<and> truthy_int (ia_year ia) \<and>
                \<bar>the (bph_year bph) - the (ia_year ia)\<bar> \<le> 30)
      in \<lparr> cand_bph_work = bph, cand_ia_work = ia, embedding_score = score,
           fuzzy_score = fuzzy, author_match = am, year_match = ym,
           cand_confidence = classify llm score am ym \<rparr>)"

fun scan_hits ::
  "fuzz \<Rightarrow> BibliographicMatcher \<Rightarrow> BPHWork \<Rightarrow> (rat \<times> int) list \<Rightarrow> py_error + MatchCandidate list"
where
  \<comment> \<open>the loop over the hits \<open>(score, idx)\<close> of the nearest-neighbour search;
      \<open>self.ia_works[idx]\<close> raises beyond the end of the list\<close>
  "scan_hits fz m bph [] = Inr []"
| "scan_hits fz m bph ((score, idx) # hits) =
     (if idx < 0 then scan_hits fz m bph hits
      else if idx \<ge> int (length (ia_works m)) then Inl IndexError
      else (case scan_hits fz m bph hits of
              Inl e \<Rightarrow> Inl e
            | Inr cs \<Rightarrow> Inr (candidate fz (use_llm m) bph score (ia_works m ! nat idx) # cs)))"

definition find_candidates ::
  "fuzz \<Rightarrow> BibliographicMatcher \<Rightarrow> BPHWork \<Rightarrow> (rat \<times> int) list \<Rightarrow> py_error + MatchCandidate list"
where
  \<comment> \<open>\<open>sorted(candidates, key=lambda c: c.embedding_score, reverse=True)\<close> is stable\<close>
  "find_candidates fz m bph hits =
     (case scan_hits fz m bph hits of
        Inl e \<Rightarrow> Inl e
      | Inr cs \<Rightarrow> Inr (sort_key (\<lambda>c. - embedding_score c) cs))"


subsection \<open>\<open>llm_evaluate\<close> and \<open>match_work\<close>\<close>

text \<open>
  The reasoning service and \<open>json.loads\<close> are outside the repository. One exchange with
  the service is given by what the request does (\<open>Raised msg\<close>: the request, or reading
  \<open>response.content[0].text\<close>, raises an exception \<open>e\<close> with \<open>str(e) = msg\<close>;
  \<open>Replied text\<close>: the text of the answer) and by what \<open>json.loads\<close> returns for the
  object found in that text (\<open>Inl msg\<close>: it raises with that message; \<open>Inr d\<close>: the
  dictionary). A service gives the exchange of the \<open>n\<close>-th request.
\<close>

datatype api_outcome = Raised string | Replied string

record exchange =
  reply :: api_outcome
  decoded :: "string + (string \<rightharpoonup> json)"

type_synonym service = "nat \<Rightarrow> exchange"

fun json_search :: "string \<Rightarrow> string option" where
  \<comment> \<open>\<open>re.search(r'\{[^}]+\}', text, re.DOTALL)\<close>: the leftmost opening brace that is
      followed by at least one character other than a closing brace and then by a
      closing brace\<close>
  "json_search [] = None"
| "json_search (c # cs) =
     (if c = CHR ''{'' \<and> takeWhile (\<lambda>d. d \<noteq> CHR ''}'') cs \<noteq> [] \<and>
         dropWhile (\<lambda>d. d \<noteq> CHR ''}'') cs \<noteq> []
      then Some (c # takeWhile (\<lambda>d. d \<noteq> CHR ''}'') cs @ ''}'')
      else json_search cs)"

definition fallback_result :: "string \<rightharpoonup> json" where
  "fallback_result =
     map_of [(''verdict'', JStr ''DIFFERENT''), (''confidence'', JStr ''low''),
             (''reasoning'', JStr ''Could not parse response'')]"

definition type_name :: "json \<Rightarrow> string" where
  "type_name v =
     (case v of JNull \<Rightarrow> ''NoneType'' | JBool b \<Rightarrow> ''bool'' | JInt i \<Rightarrow> ''int''
      | JFloat x \<Rightarrow> ''float'' | JStr s \<Rightarrow> ''str'' | JArr xs \<Rightarrow> ''list'' | JObj kvs \<Rightarrow> ''dict'')"

definition item :: "(string \<rightharpoonup> json) \<Rightarrow> string \<Rightarrow> string + json" where
  \<comment> \<open>\<open>result[key]\<close>; the message of a \<open>KeyError\<close> is the key in single quotes\<close>
  "item d key = (case d key of None \<Rightarrow> Inl (CHR 0x27 # key @ [CHR 0x27]) | Some v \<Rightarrow> Inr v)"

definition as_rationale :: "json \<Rightarrow> rationale" where
  "as_rationale v = (case v of JStr s \<Rightarrow> Plain s | _ \<Rightarrow> NonText v)"

definition llm_try :: "MatchCandidate \<Rightarrow> exchange \<Rightarrow> string + MatchResult" where
  \<comment> \<open>the body of the \<open>try\<close> block; \<open>Inl msg\<close> is an exception with that message\<close>
  "llm_try c ex =
     (case reply ex of
        Raised msg \<Rightarrow> Inl msg
      | Replied text \<Rightarrow>
          (case (case json_search text of
                   Some g \<Rightarrow> decoded ex
                 | None \<Rightarrow> Inr fallback_result) of
             Inl msg \<Rightarrow> Inl msg
           | Inr result \<Rightarrow>
               (case item result ''verdict'' of
                  Inl msg \<Rightarrow> Inl msg
                | Inr verdict \<Rightarrow>
                    (let matched = (verdict = JStr ''SAME_EDITION'' \<or> verdict = JStr ''SAME_WORK'')
                     in case verdict of
                          JStr v \<Rightarrow>
                            (case item result ''confidence'' of
                               Inl msg \<Rightarrow> Inl msg
                             | Inr conf \<Rightarrow>
                                 (case item result ''reasoning'' of
                                    Inl msg \<Rightarrow> Inl msg
                                  | Inr why \<Rightarrow>
                                      Inr \<lparr> res_bph_work = cand_bph_work c,
                                            res_ia_work =
                                              (if matched then Some (cand_ia_work c) else None),
                                            is_match = matched,
                                            res_confidence = conf,
                                            match_type = lower v,
                                            reasoning = as_rationale why,
                                            res_method = ''llm'' \<rparr>))
                        | _ \<Rightarrow>
                            Inl (CHR 0x27 # type_name verdict @ CHR 0x27 #
                                 '' object has no attribute '' @ CHR 0x27 # ''lower'' @ [CHR 0x27])))))"

definition llm_evaluate :: "MatchCandidate \<Rightarrow> service \<Rightarrow> nat \<Rightarrow> MatchResult \<times> nat" where
  \<comment> \<open>the last argument counts the requests sent so far; so does the second result\<close>
  "llm_evaluate c orc n =
     (case llm_try c (orc n) of
        Inr r \<Rightarrow> (r, Suc n)
      | Inl msg \<Rightarrow>
          (\<lparr> res_bph_work = cand_bph_work c, res_ia_work = None, is_match = False,
             res_confidence = JStr ''low'', match_type = ''error'',
             reasoning = Plain (''LLM error: '' @ msg), res_method = ''llm_error'' \<rparr>, Suc n))"

definition decide :: "BibliographicMatcher \<Rightarrow> BPHWork \<Rightarrow> MatchCandidate list \<Rightarrow> service \<Rightarrow> nat
    \<Rightarrow> MatchResult \<times> nat" where
  \<comment> \<open>\<open>match_work\<close> after \<open>find_candidates\<close> has returned\<close>
  "decide m bph candidates orc n =
     (case candidates of
        [] \<Rightarrow>
          (\<lparr> res_bph_work = bph, res_ia_work = None, is_match = False,
             res_confidence = JStr ''high'', match_type = ''no_candidates'',
             reasoning = Plain ''No candidates found above threshold'',
             res_method = ''embedding'' \<rparr>, n)
      | best # others \<Rightarrow>
          if cand_confidence best = High
          then (\<lparr> res_bph_work = bph, res_ia_work = Some (cand_ia_work best), is_match = True,
                  res_confidence = JStr ''high'',
                  match_type =
                    (if author_match best \<and> year_match best then ''same_edition''
                     else ''same_work''),
                  reasoning = Scored ''High embedding score ('' (embedding_score best)
                                '') with metadata confirmation'',
                  res_method = ''embedding'' \<rparr>, n)
          else if cand_confidence best = Medium \<and> llm_mode m \<noteq> ''full''
          then (\<lparr> res_bph_work = bph, res_ia_work = Some (cand_ia_work best), is_match = True,
                  res_confidence = JStr ''medium'', match_type = ''same_work'',
                  reasoning = Scored ''Good embedding score ('' (embedding_score best)
                                '') without full metadata match'',
                  res_method = ''embedding'' \<rparr>, n)
          else if cand_confidence best = Needs_llm \<or> llm_mode m = ''full''
          then llm_evaluate best orc n
          else (\<lparr> res_bph_work = bph, res_ia_work = None, is_match = False,
                  res_confidence = JStr ''high'', match_type = ''no_match'',
                  reasoning = Scored ''Best candidate score ('' (embedding_score best)
                                '') below threshold'',
                  res_method = ''embedding'' \<rparr>, n))"

definition match_work ::
  "fuzz \<Rightarrow> BibliographicMatcher \<Rightarrow> BPHWork \<Rightarrow> (rat \<times> int) list \<Rightarrow> service \<Rightarrow> nat
     \<Rightarrow> py_error + MatchResult \<times> nat" where
  "match_work fz m bph hits orc n =
     (case find_candidates fz m bph hits of
        Inl e \<Rightarrow> Inl e
      | Inr candidates \<Rightarrow> Inr (decide m bph candidates orc n))"

definition retains :: "string \<Rightarrow> rationale \<Rightarrow> bool" where
  \<comment> \<open>the rationale holds the given text\<close>
  "retains raw r = (case r of Plain s \<Rightarrow> sublist raw s | _ \<Rightarrow> False)"


section \<open>\<open>latin_pub_db/scripts/dedupe.py\<close>\<close>

definition YEAR_TOLERANCE :: int where "YEAR_TOLERANCE = 2"
definition TITLE_PREFIX_LENGTH :: nat where "TITLE_PREFIX_LENGTH = 3"
definition SIMILARITY_THRESHOLD :: rat where "SIMILARITY_THRESHOLD = 85"

text \<open>
  A row of the table \<open>publications\<close>, as the dictionary the script builds from it; \<open>None\<close>
  is SQL \<open>NULL\<close>.
\<close>

record publication =
  pub_id :: int
  title_normalized :: "string option"
  creator_normalized :: "string option"
  pub_year :: "int option"

definition get_title_prefix :: "string option \<Rightarrow> string" where
  "get_title_prefix t =
     (if \<not> truthy_str t then [] else join (take TITLE_PREFIX_LENGTH (split_ws (the t))))"

definition word_set_sim :: "string \<Rightarrow> string \<Rightarrow> rat" where
  \<comment> \<open>the \<open>Basic fallback\<close> of \<open>similarity_score\<close>, used when rapidfuzz is not installed\<close>
  "word_set_sim a b =
     (let t1 = set (split_ws a); t2 = set (split_ws b)
      in if t1 \<noteq> {} \<and> t2 \<noteq> {}
         then of_nat (card (t1 \<inter> t2)) / of_nat (card (t1 \<union> t2)) * 100
         else 0)"

definition token_sim :: "(string \<Rightarrow> string \<Rightarrow> rat) option \<Rightarrow> string \<Rightarrow> string \<Rightarrow> rat" where
  \<comment> \<open>\<open>Some f\<close>: \<open>RAPIDFUZZ_AVAILABLE\<close> holds and \<open>f\<close> is \<open>fuzz.token_set_ratio\<close>\<close>
  "token_sim rf a b = (case rf of Some f \<Rightarrow> f a b | None \<Rightarrow> word_set_sim a b)"

definition title_signal ::
  "(string \<Rightarrow> string \<Rightarrow> rat) option \<Rightarrow> publication \<Rightarrow> publication \<Rightarrow> rat option" where
  "title_signal rf r1 r2 =
     (if truthy_str (title_normalized r1) \<and> truthy_str (title_normalized r2)
      then Some (token_sim rf (the (title_normalized r1)) (the (title_normalized r2)))
      else None)"

definition creator_signal ::
  "(string \<Rightarrow> string \<Rightarrow> rat) option \<Rightarrow> publication \<Rightarrow> publication \<Rightarrow> rat option" where
  "creator_signal rf r1 r2 =
     (if truthy_str (creator_normalized r1) \<and> truthy_str (creator_normalized r2)
      then Some (token_sim rf (the (creator_normalized r1)) (the (creator_normalized r2)))
      else None)"

definition year_signal :: "publication \<Rightarrow> publication \<Rightarrow> rat option" where
  "year_signal r1 r2 =
     (if truthy_int (pub_year r1) \<and> truthy_int (pub_year r2)
      then (let year_diff = \<bar>the (pub_year r1) - the (pub_year r2)\<bar>
            in Some (if year_diff \<le> YEAR_TOLERANCE then of_int (100 - year_diff * 20) else 0))
      else None)"

definition add_signal :: "rat \<Rightarrow> rat option \<Rightarrow> rat \<times> rat \<Rightarrow> rat \<times> rat" where
  \<comment> \<open>\<open>score += sim * w; weights_total += w\<close>, when the signal is there\<close>
  "add_signal w sig acc =
     (case sig of None \<Rightarrow> acc | Some sim \<Rightarrow> (fst acc + sim * w, snd acc + w))"

definition similarity_score ::
  "(string \<Rightarrow> string \<Rightarrow> rat) option \<Rightarrow> publication \<Rightarrow> publication \<Rightarrow> rat" where
  "similarity_score rf r1 r2 =
     (let (score, weights_total) =
            add_signal (1 / 10) (year_signal r1 r2)
              (add_signal (3 / 10) (creator_signal rf r1 r2)
                (add_signal (6 / 10) (title_signal rf r1 r2) (0, 0)))
      in if weights_total > 0 then score / weights_total * 100 else 0)"

subsection \<open>\<open>find_clusters\<close>: union-find over the indices of a block\<close>

fun find_rec :: "nat \<Rightarrow> nat list \<Rightarrow> nat \<Rightarrow> (nat list \<times> nat) option" where
  \<comment> \<open>\<open>find\<close> with path compression; the first argument bounds the depth of the recursion\<close>
  "find_rec 0 parent x = None"
| "find_rec (Suc k) parent x =
     (if parent ! x \<noteq> x
      then (case find_rec k parent (parent ! x) of
              None \<Rightarrow> None
            | Some (parent', r) \<Rightarrow> Some (parent'[x := r], r))
      else Some (parent, x))"

definition find_uf :: "nat list \<Rightarrow> nat \<Rightarrow> (nat list \<times> nat) option" where
  "find_uf parent x = find_rec (length parent) parent x"

definition union_uf :: "nat list \<Rightarrow> nat \<Rightarrow> nat \<Rightarrow> nat list option" where
  "union_uf parent x y =
     (case find_uf parent x of
        None \<Rightarrow> None
      | Some (parent1, px) \<Rightarrow>
          (case find_uf parent1 y of
             None \<Rightarrow> None
           | Some (parent2, py) \<Rightarrow> Some (if px \<noteq> py then parent2[px := py] else parent2)))"

definition index_pairs :: "nat \<Rightarrow> (nat \<times> nat) list" where
  \<comment> \<open>\<open>for i in range(n): for j in range(i + 1, n)\<close>\<close>
  "index_pairs n = concat (map (\<lambda>i. map (\<lambda>j. (i, j)) [i + 1 ..< n]) [0 ..< n])"

fun union_pairs ::
  "(string \<Rightarrow> string \<Rightarrow> rat) option \<Rightarrow> publication list \<Rightarrow> (nat \<times> nat) list \<Rightarrow> nat list
     \<Rightarrow> nat list option" where
  "union_pairs rf records [] parent = Some parent"
| "union_pairs rf records ((i, j) # ps) parent =
     (if similarity_score rf (records ! i) (records ! j) \<ge> SIMILARITY_THRESHOLD
      then (case union_uf parent i j of
              None \<Rightarrow> None
            | Some parent' \<Rightarrow> union_pairs rf records ps parent')
      else union_pairs rf records ps parent)"

fun add_to_cluster :: "(nat \<times> int set) list \<Rightarrow> nat \<Rightarrow> int \<Rightarrow> (nat \<times> int set) list" where
  \<comment> \<open>\<open>clusters_map[root].add(id)\<close> on a \<open>defaultdict(set)\<close>, keys in insertion order\<close>
  "add_to_cluster [] r i = [(r, {i})]"
| "add_to_cluster ((k, s) # cm) r i =
     (if k = r then (k, insert i s) # cm else (k, s) # add_to_cluster cm r i)"

fun build_clusters ::
  "publication list \<Rightarrow> nat list \<Rightarrow> nat list \<Rightarrow> (nat \<times> int set) list
     \<Rightarrow> (nat \<times> int set) list option" where
  "build_clusters records [] parent cm = Some cm"
| "build_clusters records (i # is) parent cm =
     (case find_uf parent i of
        None \<Rightarrow> None
      | Some (parent', r) \<Rightarrow>
          build_clusters records is parent' (add_to_cluster cm r (pub_id (records ! i))))"

definition find_clusters ::
  "(string \<Rightarrow> string \<Rightarrow> rat) option \<Rightarrow> publication list \<Rightarrow> int set list option" where
  "find_clusters rf records =
     (let n = length records
      in if n = 0 then Some []
         else (case union_pairs rf records (index_pairs n) [0 ..< n] of
                 None \<Rightarrow> None
               | Some parent \<Rightarrow>
                   map_option (map snd) (build_clusters records [0 ..< n] parent [])))"

subsection \<open>\<open>deduplicate\<close>\<close>

type_synonym blocks = "((int \<times> string) \<times> publication list) list"

fun append_block :: "blocks \<Rightarrow> int \<times> string \<Rightarrow> publication \<Rightarrow> blocks" where
  \<comment> \<open>\<open>blocks[key].append(record)\<close> on a \<open>defaultdict(list)\<close>, keys in insertion order\<close>
  "append_block [] key r = [(key, [r])]"
| "append_block ((k, rs) # bs) key r =
     (if k = key then (k, rs @ [r]) # bs else (k, rs) # append_block bs key r)"

definition select_rows :: "publication list \<Rightarrow> publication list" where
  \<comment> \<open>\<open>WHERE title_normalized IS NOT NULL AND year IS NOT NULL ORDER BY year,
      title_normalized\<close>; text is compared code point by code point, a proper prefix
      coming first, and rows with the same year and title keep the order of the table\<close>
  "select_rows table =
     sort_key (\<lambda>r. (the (pub_year r), the (title_normalized r)))
       (filter (\<lambda>r. title_normalized r \<noteq> None \<and> pub_year r \<noteq> None) table)"

definition add_record :: "blocks \<Rightarrow> publication \<Rightarrow> blocks" where
  "add_record bs r =
     (let year_bucket = the (pub_year r) div 5 * 5;
          title_prefix = get_title_prefix (title_normalized r)
      in if title_prefix \<noteq> []
         then append_block
                (append_block
                  (append_block bs (year_bucket, title_prefix) r)
                  (year_bucket - 5, title_prefix) r)
                (year_bucket + 5, title_prefix) r
         else bs)"

definition build_blocks :: "publication list \<Rightarrow> blocks" where
  "build_blocks records = foldl add_record [] records"

fun unique_records :: "int set \<Rightarrow> publication list \<Rightarrow> publication list" where
  "unique_records seen_ids [] = []"
| "unique_records seen_ids (r # rs) =
     (if pub_id r \<notin> seen_ids then r # unique_records (insert (pub_id r) seen_ids) rs
      else unique_records seen_ids rs)"

fun add_clusters :: "int set list \<Rightarrow> int set list \<times> int set \<Rightarrow> int set list \<times> int set" where
  \<comment> \<open>a cluster that meets an earlier one is left out\<close>
  "add_clusters [] acc = acc"
| "add_clusters (cluster # cs) (all_clusters, processed_ids) =
     (if card cluster > 1 \<and> cluster \<inter> processed_ids = {}
      then add_clusters cs (all_clusters @ [cluster], processed_ids \<union> cluster)
      else add_clusters cs (all_clusters, processed_ids))"

fun process_blocks ::
  "(string \<Rightarrow> string \<Rightarrow> rat) option \<Rightarrow> blocks \<Rightarrow> int set list \<times> int set
     \<Rightarrow> (int set list \<times> int set) option" where
  "process_blocks rf [] acc = Some acc"
| "process_blocks rf ((key, block_records) # bs) acc =
     (if length block_records < 2 then process_blocks rf bs acc
      else (let uniq = unique_records {} block_records
            in if length uniq < 2 then process_blocks rf bs acc
               else (case find_clusters rf uniq of
                       None \<Rightarrow> None
                     | Some clusters \<Rightarrow> process_blocks rf bs (add_clusters clusters acc))))"

definition assign_canonical :: "(int \<rightharpoonup> int) \<Rightarrow> int set \<Rightarrow> (int \<rightharpoonup> int)" where
  \<comment> \<open>\<open>canonical_id = min(cluster)\<close>, written to every row of the cluster\<close>
  "assign_canonical cmap cluster =
     (\<lambda>record_id. if record_id \<in> cluster then Some (Min cluster) else cmap record_id)"

definition duplicate_clusters ::
  "(string \<Rightarrow> string \<Rightarrow> rat) option \<Rightarrow> publication list \<Rightarrow> int set list option" where
  "duplicate_clusters rf table =
     map_option fst (process_blocks rf (build_blocks (select_rows table)) ([], {}))"

definition deduplicate ::
  "(string \<Rightarrow> string \<Rightarrow> rat) option \<Rightarrow> publication list \<Rightarrow> (int \<rightharpoonup> int) option" where
  \<comment> \<open>the column \<open>canonical_id\<close> after the run; it is \<open>NULL\<close> everywhere at the start\<close>
  "deduplicate rf table =
     map_option (foldl assign_canonical Map.empty) (duplicate_clusters rf table)"

definition unique_works :: "publication list \<Rightarrow> (int \<rightharpoonup> int) \<Rightarrow> publication list" where
  \<comment> \<open>\<open>WHERE canonical_id IS NULL OR canonical_id = id\<close>: the canonical records\<close>
  "unique_works table cmap =
     filter (\<lambda>r. cmap (pub_id r) = None \<or> cmap (pub_id r) = Some (pub_id r)) table"

definition share_block :: "blocks \<Rightarrow> publication \<Rightarrow> publication \<Rightarrow> bool" where
  "share_block bs r1 r2 \<longleftrightarrow> list_ex (\<lambda>(key, rs). r1 \<in> set rs \<and> r2 \<in> set rs) bs"


definition rerun_clusters ::
  "(string \<Rightarrow> string \<Rightarrow> rat) option \<Rightarrow> publication list \<Rightarrow> int set list option" where
  \<comment> \<open>a second run, on the canonical records that the first run leaves\<close>
  "rerun_clusters rf table =
     (case deduplicate rf table of
        None \<Rightarrow> None
      | Some cmap \<Rightarrow> duplicate_clusters rf (unique_works table cmap))"


definition block_of :: "blocks \<Rightarrow> int \<times> string \<Rightarrow> publication list" where
  \<comment> \<open>\<open>blocks[key]\<close>, empty for a key that is not there\<close>
  "block_of bs key = (case map_of bs key of None \<Rightarrow> [] | Some rs \<Rightarrow> rs)"


section \<open>\<open>scripts/bph_ia_fuzzy_match.py\<close>\<close>

definition normalize_title :: "string \<Rightarrow> string" where
  "normalize_title title =
     (if title = [] then []
      else remove_diphthongs (join (split_ws (sub_non_word_space (lower title)))))"

definition stopwords :: "string list" where
  "stopwords =
     [''de'', ''in'', ''ad'', ''et'', ''ex'', ''pro'', ''per'', ''cum'', ''ab'', ''a'',
      ''the'', ''of'', ''and'', ''or'', ''to'', ''from'', ''by'', ''with'', ''for'',
      ''liber'', ''libri'', ''libro'', ''opus'', ''opera'', ''tractatus'', ''summa'',
      ''von'', ''und'', ''der'', ''die'', ''das'', ''des'', ''dem'', ''den'', ''ein'', ''eine'']"

definition extract_significant_words :: "string \<Rightarrow> nat \<Rightarrow> string set" where
  \<comment> \<open>the second argument is \<open>min_length\<close>, 4 by default\<close>
  "extract_significant_words title min_length =
     set (filter (\<lambda>w. length w \<ge> min_length \<and> w \<notin> set stopwords)
            (split_ws (normalize_title title)))"


definition rerun ::
  "(string \<Rightarrow> string \<Rightarrow> rat) option \<Rightarrow> publication list \<Rightarrow> (int \<rightharpoonup> int) option" where
  "rerun rf table =
     (case deduplicate rf table of
        None \<Rightarrow> None
      | Some cmap \<Rightarrow> deduplicate rf (unique_works table cmap))"

definition disjoint_clusters :: "int set list \<times> int set \<Rightarrow> bool" where
  "disjoint_clusters acc \<longleftrightarrow> pairwise disjnt (set (fst acc)) \<and> \<Union> (set (fst acc)) \<subseteq> snd acc"

definition non_null_fields :: "publication \<Rightarrow> nat" where
  "non_null_fields r =
     length (filter id [title_normalized r \<noteq> None, creator_normalized r \<noteq> None, pub_year r \<noteq> None])"


section \<open>\<open>scripts/utils/deduplicator.py\<close>\<close>

text \<open>
  A record is a dictionary (a row of a data frame turned into one). A key may be absent
  (\<open>None\<close> below); a value that is there may be \<open>NaN\<close> or Python's \<open>None\<close>, which
  \<open>pd.isna\<close> both take as missing.
\<close>

datatype 'a pyval = NaN | PyNone | Val 'a

datatype field = Title | Author | Date | Place

record bib_record =
  title :: "string pyval option"
  author :: "string pyval option"
  publication_year :: "int pyval option"
  publication_place :: "string pyval option"
  source_catalogue :: "string pyval option"

record RecordDeduplicator =
  date_tolerance_years :: int
  weights :: "(field \<times> rat) list"
  scorers :: fuzz
  unidecode :: "string \<Rightarrow> string"

record scores =
  s_title :: rat
  s_author :: rat
  s_date :: rat
  s_place :: rat
  s_overall :: rat

definition default_weights :: "(field \<times> rat) list" where
  "default_weights = [(Title, 4 / 10), (Author, 3 / 10), (Date, 2 / 10), (Place, 1 / 10)]"

definition isna :: "'a pyval \<Rightarrow> bool" where
  \<comment> \<open>\<open>pd.isna\<close>\<close>
  "isna v = (case v of Val x \<Rightarrow> False | _ \<Rightarrow> True)"

definition get_or :: "'a pyval \<Rightarrow> 'a pyval option \<Rightarrow> 'a pyval" where
  \<comment> \<open>\<open>record.get(key, default)\<close>; \<open>record.get(key)\<close> has the default \<open>None\<close>\<close>
  "get_or d v = (case v of None \<Rightarrow> d | Some x \<Rightarrow> x)"

definition the_val :: "string pyval \<Rightarrow> string" where
  \<comment> \<open>\<open>str(v)\<close>\<close>
  "the_val v = (case v of Val s \<Rightarrow> s | NaN \<Rightarrow> ''nan'' | PyNone \<Rightarrow> ''None'')"

fun collapse_ws :: "bool \<Rightarrow> string \<Rightarrow> string" where
  \<comment> \<open>\<open>re.sub(r'\s+', ' ', text)\<close>; the flag tells that a run of whitespace is under way\<close>
  "collapse_ws run [] = []"
| "collapse_ws run (c # cs) =
     (if is_space c then (if run then collapse_ws True cs else CHR '' '' # collapse_ws True cs)
      else c # collapse_ws False cs)"

definition strip :: "string \<Rightarrow> string" where
  \<comment> \<open>\<open>str.strip()\<close>\<close>
  "strip s = rev (dropWhile is_space (rev (dropWhile is_space s)))"

definition dedup_normalize_text :: "RecordDeduplicator \<Rightarrow> string pyval \<Rightarrow> string" where
  \<comment> \<open>\<open>RecordDeduplicator.normalize_text\<close>\<close>
  "dedup_normalize_text self text =
     (if isna text then []
      else strip (collapse_ws False (sub_non_word_space (unidecode self (lower (the_val text))))))"

definition stop_words :: "string list" where
  "stop_words =
     [''de'', ''der'', ''die'', ''das'', ''des'', ''dem'', ''den'', ''ein'', ''eine'', ''einer'',
      ''einem'', ''einen'', ''et'', ''ad'', ''in'', ''a'', ''ab'', ''ex'', ''per'', ''pro'',
      ''cum'', ''sine'', ''sub'', ''super'', ''inter'', ''contra'', ''the'', ''a'', ''an'']"

definition extract_keywords :: "RecordDeduplicator \<Rightarrow> string pyval \<Rightarrow> string set" where
  "extract_keywords self t =
     set (filter (\<lambda>word. length word > 2 \<and> word \<notin> set stop_words)
            (split_ws (dedup_normalize_text self t)))"

definition calculate_title_similarity ::
  "RecordDeduplicator \<Rightarrow> string pyval \<Rightarrow> string pyval \<Rightarrow> rat" where
  "calculate_title_similarity self title1 title2 =
     (if isna title1 \<or> isna title2 then 0
      else (let norm1 = dedup_normalize_text self title1;
                norm2 = dedup_normalize_text self title2;
                direct_similarity = ratio (scorers self) norm1 norm2 / 100;
                token_similarity = token_set_ratio (scorers self) norm1 norm2 / 100;
                keywords1 = extract_keywords self title1;
                keywords2 = extract_keywords self title2;
                keyword_similarity =
                  (if keywords1 = {} \<and> keywords2 = {} then 1
                   else if keywords1 = {} \<or> keywords2 = {} then 0
                   else of_nat (card (keywords1 \<inter> keywords2))
                          / of_nat (card (keywords1 \<union> keywords2)))
            in direct_similarity * (3 / 10) + token_similarity * (4 / 10)
                 + keyword_similarity * (3 / 10)))"

definition surname_of :: "string list \<Rightarrow> string" where
  \<comment> \<open>\<open>words[-1] if words else ""\<close>\<close>
  "surname_of words = (if words = [] then [] else last words)"

definition matching_initials :: "string list \<Rightarrow> string list \<Rightarrow> nat" where
  "matching_initials words1 words2 =
     length (filter (\<lambda>(w1, w2). hd w1 = hd w2) (zip words1 words2))"

definition calculate_author_similarity ::
  "RecordDeduplicator \<Rightarrow> string pyval \<Rightarrow> string pyval \<Rightarrow> py_error + rat" where
  "calculate_author_similarity self author1 author2 =
     (if isna author1 \<or> isna author2 then Inr 0
      else (let norm1 = dedup_normalize_text self author1;
                norm2 = dedup_normalize_text self author2;
                words1 = split_ws norm1;
                words2 = split_ws norm2;
                surname1 = surname_of words1;
                surname2 = surname_of words2
            in if surname1 = surname2 \<and> surname1 \<noteq> [] then Inr 1
               else (let similarity = ratio (scorers self) norm1 norm2 / 100
                     in if length words1 = length words2
                        then (if length words1 = 0 then Inl ZeroDivisionError
                              else Inr (min 1 (similarity
                                     + of_nat (matching_initials words1 words2)
                                         / of_nat (length words1) * (2 / 10))))
                        else Inr (min 1 similarity))))"

definition calculate_date_similarity ::
  "RecordDeduplicator \<Rightarrow> int pyval \<Rightarrow> int pyval \<Rightarrow> rat" where
  "calculate_date_similarity self year1 year2 =
     (case (year1, year2) of
        (Val y1, Val y2) \<Rightarrow>
          (if y1 = y2 then 1
           else (let diff = \<bar>y1 - y2\<bar>
                 in if diff \<le> 1 then 9 / 10
                    else if diff \<le> 2 then 7 / 10
                    else if diff \<le> date_tolerance_years self then 5 / 10
                    else if diff \<le> date_tolerance_years self * 2 then 3 / 10
                    else 1 / 10))
      | _ \<Rightarrow> 0)"

definition calculate_place_similarity ::
  "RecordDeduplicator \<Rightarrow> string pyval \<Rightarrow> string pyval \<Rightarrow> rat" where
  "calculate_place_similarity self place1 place2 =
     (if isna place1 \<or> isna place2 then 0
      else (let norm1 = dedup_normalize_text self place1;
                norm2 = dedup_normalize_text self place2;
                similarity = ratio (scorers self) norm1 norm2 / 100;
                words1 = set (split_ws norm1);
                words2 = set (split_ws norm2)
            in if words1 \<noteq> {} \<and> words2 \<noteq> {}
               then max similarity
                      (of_nat (card (words1 \<inter> words2)) / of_nat (card (words1 \<union> words2)))
               else similarity))"

definition score_of :: "field \<Rightarrow> rat \<Rightarrow> rat \<Rightarrow> rat \<Rightarrow> rat \<Rightarrow> rat" where
  \<comment> \<open>\<open>scores[field]\<close>\<close>
  "score_of f t a d p = (case f of Title \<Rightarrow> t | Author \<Rightarrow> a | Date \<Rightarrow> d | Place \<Rightarrow> p)"

definition calculate_overall_similarity ::
  "RecordDeduplicator \<Rightarrow> bib_record \<Rightarrow> bib_record \<Rightarrow> py_error + scores" where
  "calculate_overall_similarity self record1 record2 =
     (let t = calculate_title_similarity self
                (get_or (Val []) (title record1)) (get_or (Val []) (title record2))
      in case calculate_author_similarity self
                (get_or (Val []) (author record1)) (get_or (Val []) (author record2)) of
           Inl e \<Rightarrow> Inl e
         | Inr a \<Rightarrow>
             (let d = calculate_date_similarity self
                        (get_or PyNone (publication_year record1))
                        (get_or PyNone (publication_year record2));
                  p = calculate_place_similarity self
                        (get_or (Val []) (publication_place record1))
                        (get_or (Val []) (publication_place record2))
              in Inr \<lparr> s_title = t, s_author = a, s_date = d, s_place = p,
                       s_overall = sum_list (map (\<lambda>(f, w). score_of f t a d p * w)
                                               (weights self)) \<rparr>))"

subsection \<open>\<open>_select_primary_record\<close>\<close>

definition source_priority :: "string \<Rightarrow> rat" where
  \<comment> \<open>\<open>source_priority.get(source, 10)\<close>\<close>
  "source_priority source =
     (case map_of [(''ustc'', 1), (''vd16'', 2), (''vd17'', 3), (''vd18'', 4),
                   (''estc'', 5), (''worldcat'', 6)] source of
        None \<Rightarrow> 10 | Some k \<Rightarrow> k)"

definition completeness :: "bib_record \<Rightarrow> nat" where
  "completeness r =
     length (filter id
       [\<not> isna (get_or PyNone (title r)), \<not> isna (get_or PyNone (author r)),
        \<not> isna (get_or PyNone (publication_year r)),
        \<not> isna (get_or PyNone (publication_place r))])"

definition primary_score :: "bib_record \<Rightarrow> py_error + rat" where
  \<comment> \<open>the score of one row; \<open>.lower()\<close> raises on a source that is \<open>NaN\<close> or \<open>None\<close>\<close>
  "primary_score r =
     (case get_or (Val []) (source_catalogue r) of
        Val source \<Rightarrow>
          (let title_length = length (the_val (get_or (Val []) (title r)));
               author_length = length (the_val (get_or (Val []) (author r)))
           in Inr ((10 - source_priority (lower source)) * (3 / 10)
                   + of_nat (completeness r) / 4 * (4 / 10)
                   + min (of_nat title_length / 100) 1 * (15 / 100)
                   + min (of_nat author_length / 50) 1 * (15 / 100)))
      | _ \<Rightarrow> Inl AttributeError)"

fun score_rows :: "(nat \<times> bib_record) list \<Rightarrow> py_error + (nat \<times> rat) list" where
  "score_rows [] = Inr []"
| "score_rows ((idx, r) # rows) =
     (case primary_score r of
        Inl e \<Rightarrow> Inl e
      | Inr x \<Rightarrow> (case score_rows rows of Inl e \<Rightarrow> Inl e | Inr xs \<Rightarrow> Inr ((idx, x) # xs)))"

fun first_max :: "nat \<times> rat \<Rightarrow> (nat \<times> rat) list \<Rightarrow> nat \<times> rat" where
  \<comment> \<open>\<open>max(scores, key=lambda x: x[1])\<close>: the first of the greatest\<close>
  "first_max best [] = best"
| "first_max best (x # xs) = first_max (if snd x > snd best then x else best) xs"

definition select_primary_record :: "(nat \<times> bib_record) list \<Rightarrow> py_error + nat" where
  "select_primary_record group_records =
     (case score_rows group_records of
        Inl e \<Rightarrow> Inl e
      | Inr [] \<Rightarrow> Inl ValueError
      | Inr (x # xs) \<Rightarrow> Inr (fst (first_max x xs)))"

subsection \<open>The policies as the specification words them\<close>

definition weighted_average :: "(rat \<times> rat option) list \<Rightarrow> rat" where
  \<comment> \<open>the weighted average of the signals that are there, each given with its weight;
      0 when there is none\<close>
  "weighted_average sigs =
     (let present = filter (\<lambda>(w, s). s \<noteq> None) sigs;
          total = sum_list (map fst present)
      in if total > 0 then sum_list (map (\<lambda>(w, s). w * the s) present) / total else 0)"

definition both_present :: "'a pyval option \<Rightarrow> 'a pyval option \<Rightarrow> bool" where
  "both_present v1 v2 \<longleftrightarrow> \<not> isna (get_or PyNone v1) \<and> \<not> isna (get_or PyNone v2)"

definition present_average :: "bib_record \<Rightarrow> bib_record \<Rightarrow> scores \<Rightarrow> rat" where
  \<comment> \<open>what the overall score would be, were the missing fields skipped and the default
      weights normalised anew\<close>
  "present_average r1 r2 sc =
     weighted_average
       [(4 / 10, if both_present (title r1) (title r2) then Some (s_title sc) else None),
        (3 / 10, if both_present (author r1) (author r2) then Some (s_author sc) else None),
        (2 / 10, if both_present (publication_year r1) (publication_year r2)
                 then Some (s_date sc) else None),
        (1 / 10, if both_present (publication_place r1) (publication_place r2)
                 then Some (s_place sc) else None)]"


subsection \<open>Predicates on the union-find forest and on the blocks\<close>

text \<open>
  \<open>root_of parent x r\<close>: following \<open>parent\<close> from \<open>x\<close> ends at the root \<open>r\<close>. A forest is
  well formed (\<open>uf_inv\<close>) when every entry is an index of the list and some measure falls
  along every edge, so that no walk comes back on itself.
\<close>

inductive root_of :: "nat list \<Rightarrow> nat \<Rightarrow> nat \<Rightarrow> bool" for parent where
  root: "parent ! x = x \<Longrightarrow> root_of parent x x"
| step: "parent ! x \<noteq> x \<Longrightarrow> root_of parent (parent ! x) r \<Longrightarrow> root_of parent x r"

definition bounded :: "nat list \<Rightarrow> bool" where
  "bounded parent \<longleftrightarrow> (\<forall>x < length parent. parent ! x < length parent)"

definition descends :: "nat list \<Rightarrow> (nat \<Rightarrow> nat) \<Rightarrow> bool" where
  "descends parent h \<longleftrightarrow> (\<forall>x < length parent. parent ! x \<noteq> x \<longrightarrow> h (parent ! x) < h x)"

definition uf_inv :: "nat list \<Rightarrow> bool" where
  "uf_inv parent \<longleftrightarrow> bounded parent \<and> (\<exists>h. descends parent h)"

definition same_root :: "nat list \<Rightarrow> nat \<Rightarrow> nat \<Rightarrow> bool" where
  "same_root parent a b \<longleftrightarrow> (\<exists>r. root_of parent a r \<and> root_of parent b r)"

definition cluster_at :: "(nat \<times> int set) list \<Rightarrow> nat \<Rightarrow> int set" where
  "cluster_at cm r = (case map_of cm r of None \<Rightarrow> {} | Some s \<Rightarrow> s)"

text \<open>
  \<open>filed_under key r\<close>: \<open>deduplicate\<close> appends the row \<open>r\<close> to \<open>blocks[key]\<close>. The column
  \<open>id\<close> is the primary key of the table, so the ids of a table are distinct;
  \<open>nothing_lost\<close> says of a run that every cluster of more than one record found in a block
  is kept, or lies within a cluster that is kept.
\<close>

definition filed_under :: "int \<times> string \<Rightarrow> publication \<Rightarrow> bool" where
  "filed_under key r \<longleftrightarrow>
     get_title_prefix (title_normalized r) \<noteq> [] \<and>
     key \<in> {(the (pub_year r) div 5 * 5, get_title_prefix (title_normalized r)),
            (the (pub_year r) div 5 * 5 - 5, get_title_prefix (title_normalized r)),
            (the (pub_year r) div 5 * 5 + 5, get_title_prefix (title_normalized r))}"

definition unlinked :: "(string \<Rightarrow> string \<Rightarrow> rat) option \<Rightarrow> publication list \<Rightarrow> bool" where
  "unlinked rf rs \<longleftrightarrow>
     (\<forall>i j. i < j \<and> j < length rs \<longrightarrow>
        similarity_score rf (rs ! i) (rs ! j) < SIMILARITY_THRESHOLD)"

definition block_clusters ::
  "(string \<Rightarrow> string \<Rightarrow> rat) option \<Rightarrow> blocks \<Rightarrow> int set list" where
  \<comment> \<open>the clusters of more than one record that \<open>find_clusters\<close> returns for the blocks,
      whether \<open>deduplicate\<close> keeps them or not\<close>
  "block_clusters rf bs =
     concat (map (\<lambda>(key, block_records).
       if length block_records < 2 then []
       else (let uniq = unique_records {} block_records
             in if length uniq < 2 then []
                else (case find_clusters rf uniq of
                        None \<Rightarrow> []
                      | Some clusters \<Rightarrow> filter (\<lambda>cluster. card cluster > 1) clusters))) bs)"

definition nothing_lost ::
  "(string \<Rightarrow> string \<Rightarrow> rat) option \<Rightarrow> publication list \<Rightarrow> bool" where
  \<comment> \<open>every cluster found in a block lies within a cluster that the run keeps\<close>
  "nothing_lost rf table \<longleftrightarrow>
     (case duplicate_clusters rf table of
        None \<Rightarrow> True
      | Some all_clusters \<Rightarrow>
          list_all (\<lambda>c. list_ex (\<lambda>a. c \<subseteq> a) all_clusters)
            (block_clusters rf (build_blocks (select_rows table))))"


section \<open>Example records\<close>

definition basic_fuzz :: fuzz where
  \<comment> \<open>stands in for the rapidfuzz scorers in closed examples: the word-set similarity
      that \<open>dedupe.py\<close> falls back to\<close>
  "basic_fuzz = \<lparr> ratio = word_set_sim, token_set_ratio = word_set_sim \<rparr>"

definition copernicus_bph :: BPHWork where
  "copernicus_bph =
     \<lparr> bph_id = ''bph-1'', bph_title = ''De revolutionibus orbium coelestium'',
       bph_author = Some ''Copernicus, Nicolaus'', bph_year = Some 1543,
       bph_publisher = None, bph_place = Some ''Norimbergae'', bph_ubn = None \<rparr>"

definition copernicus_ia :: IAWork where
  "copernicus_ia =
     \<lparr> ia_identifier = ''derevolutionibus00cope'',
       ia_title = ''De revolutionibus orbium coelestium libri VI'',
       ia_creator = Some ''Nicolaus Copernicus'', ia_year = Some 1566,
       ia_description = None \<rparr>"

definition hybrid_matcher :: BibliographicMatcher where
  "hybrid_matcher = \<lparr> use_llm = True, llm_mode = ''hybrid'', ia_works = [copernicus_ia] \<rparr>"

definition copernicus_candidate :: MatchCandidate where
  "copernicus_candidate = candidate basic_fuzz True copernicus_bph (9 / 10) copernicus_ia"

definition title_only_a :: publication where
  "title_only_a =
     \<lparr> pub_id = 1, title_normalized = Some ''de revolutionibus'',
       creator_normalized = None, pub_year = None \<rparr>"

definition title_only_b :: publication where
  "title_only_b =
     \<lparr> pub_id = 2, title_normalized = Some ''de revolutionibus'',
       creator_normalized = None, pub_year = None \<rparr>"

definition year_only_a :: publication where
  "year_only_a =
     \<lparr> pub_id = 1, title_normalized = None, creator_normalized = None, pub_year = Some 1543 \<rparr>"

definition year_only_b :: publication where
  "year_only_b =
     \<lparr> pub_id = 2, title_normalized = None, creator_normalized = None, pub_year = Some 1543 \<rparr>"

definition edition_1500 :: publication where
  "edition_1500 =
     \<lparr> pub_id = 2, title_normalized = Some ''de revolutionibus orbium'',
       creator_normalized = Some ''copernicus'', pub_year = Some 1500 \<rparr>"

definition edition_1510 :: publication where
  "edition_1510 =
     \<lparr> pub_id = 1, title_normalized = Some ''de revolutionibus orbium'',
       creator_normalized = Some ''copernicus'', pub_year = Some 1510 \<rparr>"

definition edition_1520 :: publication where
  "edition_1520 =
     \<lparr> pub_id = 3, title_normalized = Some ''de revolutionibus orbium'',
       creator_normalized = Some ''copernicus'', pub_year = Some 1520 \<rparr>"


definition edition_1503 :: publication where
  "edition_1503 =
     \<lparr> pub_id = 4, title_normalized = Some ''de revolutionibus orbium coelestium'',
       creator_normalized = None, pub_year = Some 1503 \<rparr>"

definition corpus_a :: publication where
  "corpus_a =
     \<lparr> pub_id = 1, title_normalized = Some ''corpus hermeticum graece latine'',
       creator_normalized = None, pub_year = Some 1554 \<rparr>"

definition corpus_b :: publication where
  "corpus_b =
     \<lparr> pub_id = 2, title_normalized = Some ''hermeticum corpus latine'',
       creator_normalized = None, pub_year = Some 1554 \<rparr>"


definition bare_record :: publication where
  "bare_record =
     \<lparr> pub_id = 1, title_normalized = Some ''de revolutionibus orbium'',
       creator_normalized = None, pub_year = Some 1543 \<rparr>"

definition full_record :: publication where
  "full_record =
     \<lparr> pub_id = 2, title_normalized = Some ''de revolutionibus orbium coelestium'',
       creator_normalized = Some ''copernicus'', pub_year = Some 1543 \<rparr>"


definition full_matcher :: BibliographicMatcher where
  "full_matcher = \<lparr> use_llm = True, llm_mode = ''full'', ia_works = [copernicus_ia] \<rparr>"

definition quoted :: "string \<Rightarrow> string" where
  "quoted s = CHR 0x22 # s @ [CHR 0x22]"

definition same_work_answer :: service where
  "same_work_answer = (\<lambda>n.
     \<lparr> reply = Replied (''{'' @ quoted ''verdict'' @ '': '' @ quoted ''SAME_WORK'' @ '', '' @
                         quoted ''confidence'' @ '': '' @ quoted ''medium'' @ '', '' @
                         quoted ''reasoning'' @ '': '' @ quoted ''Same author and title'' @ ''}''),
       decoded = Inr (map_of [(''verdict'', JStr ''SAME_WORK''), (''confidence'', JStr ''medium''),
                              (''reasoning'', JStr ''Same author and title'')]) \<rparr>)"

definition prose_answer :: service where
  \<comment> \<open>an answer in prose: there is no object in it, and \<open>json.loads\<close> is not called\<close>
  "prose_answer = (\<lambda>n.
     \<lparr> reply = Replied ''I am unable to compare these two records.'',
       decoded = Inl [] \<rparr>)"

definition malformed_answer :: service where
  "malformed_answer = (\<lambda>n.
     \<lparr> reply = Replied ''{verdict: SAME_WORK, confidence: high, reasoning: none}'',
       decoded = Inl ''Expecting property name enclosed in double quotes: line 1 column 2 (char 1)'' \<rparr>)"

definition weak_candidate :: MatchCandidate where
  "weak_candidate = candidate basic_fuzz True copernicus_bph (1 / 2) copernicus_ia"

definition faint_candidate :: MatchCandidate where
  "faint_candidate = candidate basic_fuzz True copernicus_bph (1 / 10) copernicus_ia"


definition default_deduplicator :: RecordDeduplicator where
  \<comment> \<open>the default configuration; on ASCII text \<open>unidecode\<close> changes nothing\<close>
  "default_deduplicator =
     \<lparr> date_tolerance_years = 5, weights = default_weights, scorers = basic_fuzz,
       unidecode = (\<lambda>s. s) \<rparr>"

definition revolutionibus_vd16 :: bib_record where
  "revolutionibus_vd16 =
     \<lparr> title = Some (Val ''De revolutionibus orbium coelestium''), author = Some PyNone,
       publication_year = Some (Val 1543), publication_place = Some (Val ''Norimbergae''),
       source_catalogue = Some (Val ''VD16'') \<rparr>"

definition revolutionibus_ustc :: bib_record where
  "revolutionibus_ustc =
     \<lparr> title = Some (Val ''De revolutionibus orbium coelestium''),
       author = Some (Val ''Copernicus, Nicolaus''),
       publication_year = Some (Val 1543), publication_place = Some (Val ''Norimbergae''),
       source_catalogue = Some (Val ''USTC'') \<rparr>"


definition exact_ratio :: "string \<Rightarrow> string \<Rightarrow> rat" where
  "exact_ratio a b = (if a = b then 100 else 0)"

definition edition_1514 :: publication where
  "edition_1514 =
     \<lparr> pub_id = 3, title_normalized = Some ''de revolutionibus orbium coelestium'',
       creator_normalized = Some ''rheticus'', pub_year = Some 1514 \<rparr>"


section \<open>Confidence tiers\<close>

lemma classify_high_iff:
  "classify llm score am ym = High \<longleftrightarrow>
     (score \<ge> EMBEDDING_THRESHOLD_HIGH \<and> (am \<or> ym)) \<or>
     (score \<ge> EMBEDDING_THRESHOLD_MEDIUM \<and> am \<and> ym)"
  by (simp add: classify_def)

lemma scan_hits_confidence:
  "scan_hits fz m bph hits = Inr cs \<Longrightarrow> c \<in> set cs \<Longrightarrow>
   cand_confidence c = classify (use_llm m) (embedding_score c) (author_match c) (year_match c)"
proof (induction hits arbitrary: cs)
  case Nil
  then show ?case by simp
next
  case (Cons h hits)
  obtain score idx where h: "h = (score, idx)" by (cases h)
  show ?case
  proof (cases "idx < 0")
    case True
    with Cons h show ?thesis by simp
  next
    case False
    with Cons.prems h obtain cs' where
      cs': "scan_hits fz m bph hits = Inr cs'"
      and cs: "cs = candidate fz (use_llm m) bph score (ia_works m ! nat idx) # cs'"
      by (auto split: if_splits sum.splits)
    from Cons.prems(2) cs consider
      "c = candidate fz (use_llm m) bph score (ia_works m ! nat idx)" | "c \<in> set cs'"
      by auto
    then show ?thesis
    proof cases
      case 1
      then show ?thesis by (simp add: candidate_def Let_def)
    next
      case 2
      with Cons.IH cs' show ?thesis by blast
    qed
  qed
qed

text \<open>
  C3. Every candidate that \<open>find_candidates\<close> returns is in the tier \<open>high\<close> exactly when
  its semantic score is at least 0.85 and the author or the year matches, or its score is
  at least 0.75 and both the author and the year match.
\<close>

theorem confidence_high_iff:
  assumes "find_candidates fz m bph hits = Inr cs" and "c \<in> set cs"
  shows "cand_confidence c = High \<longleftrightarrow>
     (embedding_score c \<ge> 85 / 100 \<and> (author_match c \<or> year_match c)) \<or>
     (embedding_score c \<ge> 75 / 100 \<and> author_match c \<and> year_match c)"
proof -
  from assms obtain cs' where
    scan: "scan_hits fz m bph hits = Inr cs'" and "cs = sort_key (\<lambda>c. - embedding_score c) cs'"
    by (auto simp: find_candidates_def split: sum.splits)
  with assms(2) have "c \<in> set cs'" by simp
  with scan have
    "cand_confidence c = classify (use_llm m) (embedding_score c) (author_match c) (year_match c)"
    by (rule scan_hits_confidence)
  then show ?thesis
    by (simp add: classify_high_iff EMBEDDING_THRESHOLD_HIGH_def EMBEDDING_THRESHOLD_MEDIUM_def)
qed

theorem confidence_high_iff_witness:
  "find_candidates basic_fuzz hybrid_matcher copernicus_bph [(9 / 10, 0)]
     = Inr [copernicus_candidate] \<and>
   copernicus_candidate \<in> set [copernicus_candidate] \<and>
   embedding_score copernicus_candidate \<ge> 85 / 100 \<and>
   year_match copernicus_candidate \<and>
   cand_confidence copernicus_candidate = High"
proof -
  have found: "find_candidates basic_fuzz hybrid_matcher copernicus_bph [(9 / 10, 0)]
     = Inr [copernicus_candidate]"
    by (simp add: find_candidates_def hybrid_matcher_def copernicus_candidate_def)
  have mem: "copernicus_candidate \<in> set [copernicus_candidate]" by simp
  have score: "embedding_score copernicus_candidate \<ge> 85 / 100"
    by (simp add: copernicus_candidate_def candidate_def Let_def)
  have year: "year_match copernicus_candidate"
    by (simp add: copernicus_candidate_def candidate_def Let_def truthy_int_def
        copernicus_bph_def copernicus_ia_def)
  from confidence_high_iff [OF found mem] score year
  have "cand_confidence copernicus_candidate = High" by blast
  with found mem score year show ?thesis by blast
qed


section \<open>The scale of the similarity score\<close>

text \<open>
  C1. \<open>similarity_score\<close> is documented to return a score between 0 and 100. It divides
  the weighted sum by the weights used and then multiplies by 100 once more: two records
  with the same title and nothing else score 10000, and so do two records with the same
  year and nothing else, whatever the title scorer is.
\<close>

theorem similarity_score_exceeds_scale:
  "similarity_score None title_only_a title_only_b = 10000 \<and>
   similarity_score rf year_only_a year_only_b = 10000"
proof
  show "similarity_score None title_only_a title_only_b = 10000"
    by code_simp
  show "similarity_score rf year_only_a year_only_b = 10000"
    by (simp add: similarity_score_def add_signal_def title_signal_def creator_signal_def
        year_signal_def truthy_str_def truthy_int_def year_only_a_def year_only_b_def
        YEAR_TOLERANCE_def)
qed


section \<open>Blocking\<close>

lemma map_of_append_block:
  "map_of (append_block bs key r) = (map_of bs)(key \<mapsto> block_of bs key @ [r])"
  by (induction bs key r rule: append_block.induct) (auto simp: block_of_def fun_eq_iff)

lemma block_of_append_block:
  "block_of (append_block bs key r) k = (if k = key then block_of bs key @ [r] else block_of bs k)"
  by (simp add: block_of_def map_of_append_block)

lemma block_of_add_record_mono:
  "r \<in> set (block_of bs k) \<Longrightarrow> r \<in> set (block_of (add_record bs r') k)"
  by (auto simp add: add_record_def Let_def block_of_append_block)

lemma block_of_add_record_self:
  assumes "get_title_prefix (title_normalized r) \<noteq> []" and "d \<in> {0, -5, 5}"
  shows "r \<in> set (block_of (add_record bs r)
            (the (pub_year r) div 5 * 5 + d, get_title_prefix (title_normalized r)))"
  using assms by (auto simp add: add_record_def Let_def block_of_append_block)

lemma block_of_foldl_mono:
  "r \<in> set (block_of bs k) \<Longrightarrow> r \<in> set (block_of (foldl add_record bs rs) k)"
  by (induction rs arbitrary: bs) (simp_all add: block_of_add_record_mono)

lemma block_of_build:
  assumes "r \<in> set rs" and "get_title_prefix (title_normalized r) \<noteq> []" and "d \<in> {0, -5, 5}"
  shows "r \<in> set (block_of (foldl add_record bs rs)
            (the (pub_year r) div 5 * 5 + d, get_title_prefix (title_normalized r)))"
  using assms(1)
proof (induction rs arbitrary: bs)
  case Nil
  then show ?case by simp
next
  case (Cons a rs)
  show ?case
  proof (cases "r = a")
    case True
    then show ?thesis
      using block_of_add_record_self [OF assms(2,3), of bs]
      by (simp add: block_of_foldl_mono)
  next
    case False
    with Cons show ?thesis by simp
  qed
qed

lemma share_blockI:
  assumes "r1 \<in> set (block_of bs k)" and "r2 \<in> set (block_of bs k)"
  shows "share_block bs r1 r2"
proof -
  from assms(1) obtain rs where rs: "map_of bs k = Some rs"
    by (cases "map_of bs k") (auto simp: block_of_def)
  then have "(k, rs) \<in> set bs" by (rule map_of_SomeD)
  moreover from rs assms have "r1 \<in> set rs \<and> r2 \<in> set rs" by (simp add: block_of_def)
  ultimately show ?thesis
    unfolding share_block_def list_ex_iff by blast
qed

lemma bucket_near:
  fixes y1 y2 :: int
  assumes "\<bar>y1 - y2\<bar> \<le> 5"
  shows "y1 div 5 * 5 = y2 div 5 * 5 \<or> y1 div 5 * 5 = y2 div 5 * 5 - 5 \<or> y1 div 5 * 5 = y2 div 5 * 5 + 5"
proof -
  define q1 q2 where "q1 = y1 div 5" and "q2 = y2 div 5"
  have "y1 = q1 * 5 + y1 mod 5" "y2 = q2 * 5 + y2 mod 5" by (simp_all add: q1_def q2_def)
  moreover have "0 \<le> y1 mod 5" "y1 mod 5 < 5" "0 \<le> y2 mod 5" "y2 mod 5 < 5" by simp_all
  ultimately have "q1 \<le> q2 + 1" "q2 \<le> q1 + 1" using assms by linarith+
  then have "q1 = q2 \<or> q1 = q2 - 1 \<or> q1 = q2 + 1" by linarith
  then show ?thesis unfolding q1_def q2_def by auto
qed

text \<open>
  C4, as the code has it. Two rows with a title and a year whose titles have the same
  non-empty prefix (the first three words) and whose years differ by at most 5 share a
  block: each row is filed under its own five-year bucket and under the buckets below and
  above.
\<close>

theorem same_prefix_share_block:
  assumes "r1 \<in> set table" and "r2 \<in> set table"
    and "title_normalized r1 \<noteq> None" and "title_normalized r2 \<noteq> None"
    and "pub_year r1 = Some y1" and "pub_year r2 = Some y2"
    and "get_title_prefix (title_normalized r1) \<noteq> []"
    and "get_title_prefix (title_normalized r1) = get_title_prefix (title_normalized r2)"
    and "\<bar>y1 - y2\<bar> \<le> 5"
  shows "share_block (build_blocks (select_rows table)) r1 r2"
proof -
  let ?rows = "select_rows table"
  let ?p = "get_title_prefix (title_normalized r1)"
  let ?bs = "build_blocks ?rows"
  from assms have in1: "r1 \<in> set ?rows" and in2: "r2 \<in> set ?rows"
    by (simp_all add: select_rows_def)
  have p2: "get_title_prefix (title_normalized r2) \<noteq> []" using assms(7,8) by simp
  have b1: "r1 \<in> set (block_of ?bs (y1 div 5 * 5 + 0, ?p))"
    using block_of_build [OF in1 assms(7), of 0 "[]"] assms(5) by (simp add: build_blocks_def)
  have b2: "d \<in> {0, -5, 5} \<Longrightarrow> r2 \<in> set (block_of ?bs (y2 div 5 * 5 + d, ?p))" for d
    using block_of_build [OF in2 p2, of d "[]"] assms(6,8) by (simp add: build_blocks_def)
  from bucket_near [OF assms(9)] consider
    "y1 div 5 * 5 = y2 div 5 * 5 + 0" | "y1 div 5 * 5 = y2 div 5 * 5 + (-5)"
    | "y1 div 5 * 5 = y2 div 5 * 5 + 5" by auto
  then obtain d where d: "d \<in> {0, -5, 5}" and eq: "y1 div 5 * 5 = y2 div 5 * 5 + d"
    by (cases; blast)
  from b2 [OF d] eq have "r2 \<in> set (block_of ?bs (y1 div 5 * 5 + 0, ?p))" by simp
  with b1 show ?thesis by (rule share_blockI)
qed

theorem same_prefix_share_block_witness:
  "get_title_prefix (title_normalized edition_1500) = ''de revolutionibus orbium'' \<and>
   get_title_prefix (title_normalized edition_1503) = ''de revolutionibus orbium'' \<and>
   share_block (build_blocks (select_rows [edition_1500, edition_1503])) edition_1500 edition_1503"
proof -
  have p1: "get_title_prefix (title_normalized edition_1500) = ''de revolutionibus orbium''"
    by code_simp
  have p2: "get_title_prefix (title_normalized edition_1503) = ''de revolutionibus orbium''"
    by code_simp
  have "share_block (build_blocks (select_rows [edition_1500, edition_1503]))
          edition_1500 edition_1503"
  proof (rule same_prefix_share_block [where ?y1.0 = 1500 and ?y2.0 = 1503])
    show "get_title_prefix (title_normalized edition_1500) \<noteq> []" by (simp add: p1)
    show "get_title_prefix (title_normalized edition_1500) =
          get_title_prefix (title_normalized edition_1503)" by (simp add: p1 p2)
  qed (simp_all add: edition_1500_def edition_1503_def)
  with p1 p2 show ?thesis by simp
qed

text \<open>
  C4, as the specification states it, fails. The two titles below share three significant
  words and the rows have the same year, but the words come in a different order, the
  prefixes differ, and no block holds both rows.
\<close>

theorem shared_words_no_block:
  "truthy_str (title_normalized corpus_a) \<and> truthy_str (title_normalized corpus_b) \<and>
   card (extract_significant_words (the (title_normalized corpus_a)) 4 \<inter>
         extract_significant_words (the (title_normalized corpus_b)) 4) \<ge> 2 \<and>
   \<bar>the (pub_year corpus_a) - the (pub_year corpus_b)\<bar> \<le> 5 \<and>
   \<not> share_block (build_blocks (select_rows [corpus_a, corpus_b])) corpus_a corpus_b"
  by code_simp


section \<open>Clusters\<close>

lemma find_uf_identity:
  assumes "i < n"
  shows "find_uf [0 ..< n] i = Some ([0 ..< n], i)"
proof -
  from assms obtain k where "n = Suc k" by (cases n) auto
  with assms show ?thesis
    unfolding find_uf_def by (simp del: upt_Suc)
qed

lemma union_pairs_below:
  assumes "\<forall>(i, j) \<in> set ps. similarity_score rf (records ! i) (records ! j) < SIMILARITY_THRESHOLD"
  shows "union_pairs rf records ps parent = Some parent"
  using assms by (induction ps) auto

lemma index_pairs_iff: "(i, j) \<in> set (index_pairs n) \<longleftrightarrow> i < j \<and> j < n"
  by (fastforce simp: index_pairs_def)

lemma add_to_cluster_fresh:
  "r \<notin> fst ` set cm \<Longrightarrow> add_to_cluster cm r i = cm @ [(r, {i})]"
  by (induction cm) auto

lemma build_clusters_identity:
  assumes "distinct is" and "set is \<subseteq> {..< n}" and "set is \<inter> fst ` set cm = {}"
  shows "build_clusters records is [0 ..< n] cm
           = Some (cm @ map (\<lambda>i. (i, {pub_id (records ! i)})) is)"
  using assms
proof (induction "is" arbitrary: cm)
  case Nil
  then show ?case by simp
next
  case (Cons i "is")
  from Cons.prems have i: "i < n" and fresh: "i \<notin> fst ` set cm" by auto
  let ?cm = "cm @ [(i, {pub_id (records ! i)})]"
  from Cons.prems have "set is \<inter> fst ` set ?cm = {}" by auto
  with Cons.IH [of ?cm] Cons.prems
  have "build_clusters records is [0 ..< n] ?cm
          = Some (?cm @ map (\<lambda>i. (i, {pub_id (records ! i)})) is)" by simp
  with i fresh show ?case
    by (simp add: find_uf_identity add_to_cluster_fresh)
qed

lemma find_clusters_below:
  assumes "\<And>i j. i < j \<Longrightarrow> j < length records \<Longrightarrow>
             similarity_score rf (records ! i) (records ! j) < SIMILARITY_THRESHOLD"
  shows "find_clusters rf records = Some (map (\<lambda>r. {pub_id r}) records)"
proof (cases "records = []")
  case True
  then show ?thesis by (simp add: find_clusters_def)
next
  case False
  define n where "n = length records"
  have pairs: "union_pairs rf records (index_pairs n) [0 ..< n] = Some [0 ..< n]"
    by (rule union_pairs_below) (auto simp: index_pairs_iff n_def assms)
  have "build_clusters records [0 ..< n] [0 ..< n] []
      = Some ([] @ map (\<lambda>i. (i, {pub_id (records ! i)})) [0 ..< n])"
    by (rule build_clusters_identity) auto
  then have built: "map_option (map snd) (build_clusters records [0 ..< n] [0 ..< n] [])
      = Some (map (\<lambda>i. {pub_id (records ! i)}) [0 ..< n])"
    by (simp add: comp_def)
  have "map (\<lambda>i. {pub_id (records ! i)}) [0 ..< n] = map (\<lambda>r. {pub_id r}) records"
    unfolding n_def by (rule nth_equalityI) simp_all
  with built have built': "map_option (map snd) (build_clusters records [0 ..< n] [0 ..< n] [])
      = Some (map (\<lambda>r. {pub_id r}) records)" by simp
  from False have "n \<noteq> 0" by (simp add: n_def)
  then show ?thesis
    unfolding find_clusters_def Let_def n_def [symmetric]
    by (simp only: pairs built' if_False option.case)
qed

lemma add_clusters_singletons:
  "\<forall>c \<in> set cs. card c \<le> 1 \<Longrightarrow> add_clusters cs acc = acc"
  by (induction cs acc rule: add_clusters.induct) auto

subsection \<open>The canonical record of a cluster\<close>

lemma add_clusters_disjoint:
  "disjoint_clusters acc \<Longrightarrow> disjoint_clusters (add_clusters cs acc)"
proof (induction cs acc rule: add_clusters.induct)
  case (1 acc)
  then show ?case by simp
next
  case (2 cluster cs all_clusters processed_ids)
  show ?case
  proof (cases "card cluster > 1 \<and> cluster \<inter> processed_ids = {}")
    case True
    from "2.prems" True
    have "disjoint_clusters (all_clusters @ [cluster], processed_ids \<union> cluster)"
      unfolding disjoint_clusters_def
      by (auto simp: pairwise_insert disjnt_def)
    with "2.IH"(1) True show ?thesis by simp
  next
    case False
    with 2 show ?thesis by auto
  qed
qed

lemma process_blocks_disjoint:
  "process_blocks rf bs acc = Some acc' \<Longrightarrow> disjoint_clusters acc \<Longrightarrow> disjoint_clusters acc'"
proof (induction rf bs acc rule: process_blocks.induct)
  case (1 rf acc)
  then show ?case by simp
next
  case (2 rf key block_records bs acc)
  then show ?case
    by (auto simp: Let_def add_clusters_disjoint split: if_splits option.splits)
qed

lemma assign_canonical_in: "i \<in> c \<Longrightarrow> assign_canonical m c i = Some (Min c)"
  by (simp add: assign_canonical_def)

lemma assign_canonical_out: "i \<notin> c \<Longrightarrow> assign_canonical m c i = m i"
  by (simp add: assign_canonical_def)

lemma foldl_assign_outside:
  "i \<notin> \<Union> (set cls) \<Longrightarrow> foldl assign_canonical m cls i = m i"
proof (induction cls rule: rev_induct)
  case Nil
  then show ?case by simp
next
  case (snoc c cls)
  then have "i \<notin> c" and "i \<notin> \<Union> (set cls)" by auto
  then show ?case
    using snoc.IH by (simp add: assign_canonical_out)
qed

lemma foldl_assign_inside:
  assumes "pairwise disjnt (set cls)" and "cl \<in> set cls" and "i \<in> cl"
  shows "foldl assign_canonical m cls i = Some (Min cl)"
  using assms
proof (induction cls rule: rev_induct)
  case Nil
  then show ?case by simp
next
  case (snoc c cls)
  show ?case
  proof (cases "i \<in> c")
    case True
    have "cl = c"
    proof (rule ccontr)
      assume "cl \<noteq> c"
      with snoc.prems have "disjnt cl c" by (auto simp: pairwise_def)
      with True snoc.prems(3) show False by (auto simp: disjnt_def)
    qed
    with True show ?thesis by (simp add: assign_canonical_in)
  next
    case False
    with snoc.prems have "cl \<in> set cls" by auto
    moreover from snoc.prems have "pairwise disjnt (set cls)"
      by (auto simp: pairwise_def)
    ultimately have "foldl assign_canonical m cls i = Some (Min cl)"
      using snoc.IH snoc.prems(3) by blast
    with False show ?thesis by (simp add: assign_canonical_out)
  qed
qed

lemma canonical_is_lowest_id:
  assumes "duplicate_clusters rf table = Some cls" and "deduplicate rf table = Some cmap"
  shows "(\<forall>cl \<in> set cls. \<forall>i \<in> cl. cmap i = Some (Min cl)) \<and>
         (\<forall>i. i \<notin> \<Union> (set cls) \<longrightarrow> cmap i = None)"
proof -
  from assms(1) obtain proc where
    pb: "process_blocks rf (build_blocks (select_rows table)) ([], {}) = Some (cls, proc)"
    by (auto simp: duplicate_clusters_def)
  have "disjoint_clusters ([], {})" by (simp add: disjoint_clusters_def)
  with pb have "disjoint_clusters (cls, proc)" by (rule process_blocks_disjoint)
  then have disj: "pairwise disjnt (set cls)" by (simp add: disjoint_clusters_def)
  from assms have cmap: "cmap = foldl assign_canonical Map.empty cls"
    by (simp add: deduplicate_def)
  show ?thesis
    unfolding cmap using disj by (auto simp: foldl_assign_inside foldl_assign_outside)
qed


subsection \<open>The union-find forest\<close>

text \<open>
  \<open>find\<close> is modelled with a bound on its depth. On a well-formed forest the bound is never
  reached: \<open>find\<close> returns the root and keeps the forest well formed with the same roots,
  and \<open>union\<close> joins two trees. So \<open>find_clusters\<close> and \<open>deduplicate\<close> always return, and
  two records of a block that score \<open>SIMILARITY_THRESHOLD\<close> or more end in one cluster.
\<close>

lemma root_of_is_root: "root_of parent x r \<Longrightarrow> parent ! r = r"
  by (induction rule: root_of.induct) auto

lemma root_of_det: "root_of parent x r \<Longrightarrow> root_of parent x s \<Longrightarrow> r = s"
proof (induction arbitrary: s rule: root_of.induct)
  case (root x)
  then show ?case by (auto elim: root_of.cases)
next
  case (step x r)
  from step.prems step.hyps(1) have "root_of parent (parent ! x) s"
    by (auto elim: root_of.cases)
  then show ?case by (rule step.IH)
qed

lemma root_of_lt:
  "root_of parent x r \<Longrightarrow> bounded parent \<Longrightarrow> x < length parent \<Longrightarrow> r < length parent"
  by (induction rule: root_of.induct) (auto simp: bounded_def)

lemma root_of_descends:
  "root_of parent x r \<Longrightarrow> bounded parent \<Longrightarrow> descends parent h \<Longrightarrow> x < length parent \<Longrightarrow>
     h r \<le> h x \<and> (parent ! x \<noteq> x \<longrightarrow> h r < h x)"
proof (induction rule: root_of.induct)
  case (root x)
  then show ?case by simp
next
  case (step x r)
  then have "parent ! x < length parent" by (simp add: bounded_def)
  with step have "h r \<le> h (parent ! x)" by simp
  moreover from step have "h (parent ! x) < h x" by (simp add: descends_def)
  ultimately show ?case by simp
qed

lemma find_rec_None_chain:
  assumes "bounded parent" and "descends parent h"
  shows "find_rec k parent x = None \<Longrightarrow> x < length parent \<Longrightarrow>
     \<exists>S. finite S \<and> S \<subseteq> {..< length parent} \<and> card S = Suc k \<and> (\<forall>y \<in> S. h y \<le> h x)"
proof (induction k arbitrary: x)
  case 0
  then show ?case by (intro exI [of _ "{x}"]) simp
next
  case (Suc k)
  from Suc.prems have nonroot: "parent ! x \<noteq> x"
    and rec: "find_rec k parent (parent ! x) = None"
    by (auto split: if_splits option.splits)
  from Suc.prems assms(1) have lt: "parent ! x < length parent" by (simp add: bounded_def)
  from Suc.IH [OF rec lt] obtain S where S: "finite S" "S \<subseteq> {..< length parent}"
    "card S = Suc k" "\<forall>y \<in> S. h y \<le> h (parent ! x)" by blast
  from assms(2) Suc.prems(2) nonroot have less: "h (parent ! x) < h x" by (simp add: descends_def)
  with S(4) have "x \<notin> S" by auto
  with S Suc.prems(2) less show ?case
    by (intro exI [of _ "insert x S"]) auto
qed

lemma find_uf_total:
  assumes "uf_inv parent" and "x < length parent"
  shows "\<exists>res. find_uf parent x = Some res"
proof (rule ccontr)
  assume "\<not> (\<exists>res. find_uf parent x = Some res)"
  then have none: "find_rec (length parent) parent x = None"
    by (cases "find_rec (length parent) parent x") (auto simp: find_uf_def)
  from assms(1) obtain h where b: "bounded parent" and d: "descends parent h"
    by (auto simp: uf_inv_def)
  from find_rec_None_chain [OF b d none assms(2)] obtain S where
    "finite S" "S \<subseteq> {..< length parent}" "card S = Suc (length parent)" by blast
  then have "Suc (length parent) \<le> card {..< length parent}"
    by (metis card_mono finite_lessThan)
  then show False by simp
qed

lemma root_of_compress:
  assumes "root_of parent x r" and "x < length parent"
  shows "root_of parent y s \<Longrightarrow> root_of (parent[x := r]) y s"
proof (induction rule: root_of.induct)
  case (root y)
  show ?case
  proof (cases "y = x")
    case True
    with root assms(1) have "r = x" by (auto elim: root_of.cases)
    with True root assms(2) show ?thesis by (simp add: root_of.root)
  next
    case False
    with root show ?thesis by (simp add: root_of.root)
  qed
next
  case (step y s)
  show ?case
  proof (cases "y = x")
    case True
    from step.hyps True have xs: "root_of parent x s" by (auto intro: root_of.step)
    with assms(1) have rs: "r = s" by (rule root_of_det)
    from step.hyps(1) True assms(1) have "r \<noteq> x"
      using root_of_is_root by fastforce
    moreover from assms(1) have "parent ! r = r" by (rule root_of_is_root)
    ultimately have "root_of (parent[x := r]) r r" by (simp add: root_of.root)
    moreover from \<open>r \<noteq> x\<close> assms(2) have "parent[x := r] ! x \<noteq> x" by simp
    moreover from assms(2) have "parent[x := r] ! x = r" by simp
    ultimately show ?thesis using True rs by (metis root_of.step)
  next
    case False
    with step show ?thesis by (simp add: root_of.step)
  qed
qed

lemma uf_inv_compress:
  assumes "uf_inv parent" and "root_of parent x r" and "x < length parent"
  shows "uf_inv (parent[x := r])"
proof -
  from assms(1) obtain h where b: "bounded parent" and d: "descends parent h"
    by (auto simp: uf_inv_def)
  from root_of_lt [OF assms(2) b assms(3)] have r: "r < length parent" .
  from b r assms(3) have "bounded (parent[x := r])"
    by (auto simp: bounded_def nth_list_update)
  moreover have "descends (parent[x := r]) h"
    unfolding descends_def
  proof (intro allI impI)
    fix y assume y: "y < length (parent[x := r])" and ne: "parent[x := r] ! y \<noteq> y"
    show "h (parent[x := r] ! y) < h y"
    proof (cases "y = x")
      case True
      with ne assms(3) have "r \<noteq> x" by simp
      with assms(2) have "parent ! x \<noteq> x" by (auto elim: root_of.cases)
      with root_of_descends [OF assms(2) b d assms(3)] have "h r < h x" by simp
      with True assms(3) show ?thesis by simp
    next
      case False
      with y ne d show ?thesis by (simp add: descends_def)
    qed
  qed
  ultimately show ?thesis by (auto simp: uf_inv_def)
qed

lemma find_rec_spec:
  "find_rec k parent x = Some (parent', r) \<Longrightarrow> uf_inv parent \<Longrightarrow> x < length parent \<Longrightarrow>
     length parent' = length parent \<and> root_of parent x r \<and> uf_inv parent' \<and>
     (\<forall>y s. root_of parent y s \<longrightarrow> root_of parent' y s)"
proof (induction k arbitrary: x parent' r)
  case 0
  then show ?case by simp
next
  case (Suc k)
  show ?case
  proof (cases "parent ! x = x")
    case True
    with Suc.prems show ?thesis by (auto intro: root_of.root)
  next
    case False
    with Suc.prems(1) obtain p'' where
      rec: "find_rec k parent (parent ! x) = Some (p'', r)" and p': "parent' = p''[x := r]"
      by (auto split: option.splits)
    from Suc.prems have lt: "parent ! x < length parent" by (simp add: uf_inv_def bounded_def)
    from Suc.IH [OF rec Suc.prems(2) lt] have
      len: "length p'' = length parent" and rt: "root_of parent (parent ! x) r"
      and inv: "uf_inv p''" and keep: "\<And>y s. root_of parent y s \<Longrightarrow> root_of p'' y s"
      by blast+
    from False rt have xr: "root_of parent x r" by (rule root_of.step)
    then have xr'': "root_of p'' x r" by (rule keep)
    from Suc.prems(3) len have x'': "x < length p''" by simp
    have "root_of parent' y s" if "root_of parent y s" for y s
      unfolding p' using xr'' x'' keep [OF that] by (rule root_of_compress)
    moreover have "uf_inv parent'" unfolding p' using inv xr'' x'' by (rule uf_inv_compress)
    moreover have "length parent' = length parent" by (simp add: p' len)
    ultimately show ?thesis using xr by blast
  qed
qed

lemma find_uf_spec:
  assumes "uf_inv parent" and "x < length parent"
  shows "\<exists>parent' r. find_uf parent x = Some (parent', r) \<and>
     length parent' = length parent \<and> root_of parent x r \<and> uf_inv parent' \<and>
     (\<forall>y s. root_of parent y s \<longrightarrow> root_of parent' y s)"
proof -
  from find_uf_total [OF assms] obtain parent' r where
    f: "find_uf parent x = Some (parent', r)" by (cases) auto
  then have "find_rec (length parent) parent x = Some (parent', r)" by (simp add: find_uf_def)
  from find_rec_spec [OF this assms] f show ?thesis by blast
qed

lemma root_of_link:
  assumes "parent ! px = px" and "parent ! py = py" and "px \<noteq> py" and "px < length parent"
  shows "root_of parent y s \<Longrightarrow> root_of (parent[px := py]) y (if s = px then py else s)"
proof (induction rule: root_of.induct)
  case (root y)
  show ?case
  proof (cases "y = px")
    case True
    from assms have "root_of (parent[px := py]) py py" by (simp add: root_of.root)
    moreover from assms have "parent[px := py] ! px = py" by simp
    ultimately have "root_of (parent[px := py]) px py"
      using assms(3) by (metis root_of.step)
    with True show ?thesis by simp
  next
    case False
    with root show ?thesis by (simp add: root_of.root)
  qed
next
  case (step y s)
  from step.hyps(1) assms(1) have "y \<noteq> px" by auto
  with step show ?case by (simp add: root_of.step)
qed

lemma root_of_parent_iff:
  "parent ! z \<noteq> z \<Longrightarrow> root_of parent (parent ! z) r \<longleftrightarrow> root_of parent z r"
  by (auto intro: root_of.step elim: root_of.cases)

lemma uf_inv_link:
  assumes "uf_inv parent" and "parent ! px = px" and "parent ! py = py" and "px \<noteq> py"
    and "px < length parent" and "py < length parent"
  shows "uf_inv (parent[px := py])"
proof -
  from assms(1) obtain h where b: "bounded parent" and d: "descends parent h"
    by (auto simp: uf_inv_def)
  define h' where "h' z = (if root_of parent z px then h z + h py + 1 else h z)" for z
  from b assms(5,6) have "bounded (parent[px := py])"
    by (auto simp: bounded_def nth_list_update)
  moreover have "descends (parent[px := py]) h'"
    unfolding descends_def
  proof (intro allI impI)
    fix z assume z: "z < length (parent[px := py])" and ne: "parent[px := py] ! z \<noteq> z"
    show "h' (parent[px := py] ! z) < h' z"
    proof (cases "z = px")
      case True
      have "\<not> root_of parent py px"
        using assms(3,4) by (auto elim: root_of.cases)
      moreover from assms(2) have "root_of parent px px" by (rule root_of.root)
      ultimately show ?thesis using True assms(5) by (simp add: h'_def)
    next
      case False
      with ne have nz: "parent ! z \<noteq> z" by simp
      with z d have less: "h (parent ! z) < h z" by (simp add: descends_def)
      from False have "parent[px := py] ! z = parent ! z" by simp
      with less root_of_parent_iff [OF nz, of px] show ?thesis by (simp add: h'_def)
    qed
  qed
  ultimately show ?thesis by (auto simp: uf_inv_def)
qed

lemma same_root_link:
  assumes "parent ! px = px" and "parent ! py = py" and "px \<noteq> py" and "px < length parent"
    and "same_root parent a b"
  shows "same_root (parent[px := py]) a b"
proof -
  from assms(5) obtain r where "root_of parent a r" "root_of parent b r"
    by (auto simp: same_root_def)
  then have "root_of (parent[px := py]) a (if r = px then py else r)"
    "root_of (parent[px := py]) b (if r = px then py else r)"
    using root_of_link [OF assms(1-4)] by blast+
  then show ?thesis unfolding same_root_def by blast
qed

lemma union_uf_spec:
  assumes "uf_inv parent" and "x < length parent" and "y < length parent"
  shows "\<exists>parent'. union_uf parent x y = Some parent' \<and>
     length parent' = length parent \<and> uf_inv parent' \<and> same_root parent' x y \<and>
     (\<forall>a b. same_root parent a b \<longrightarrow> same_root parent' a b)"
proof -
  from find_uf_spec [OF assms(1,2)] obtain p1 px where f1: "find_uf parent x = Some (p1, px)"
    and l1: "length p1 = length parent" and r1: "root_of parent x px" and i1: "uf_inv p1"
    and k1: "\<forall>y s. root_of parent y s \<longrightarrow> root_of p1 y s"
    by blast
  from assms(3) l1 have y1: "y < length p1" by simp
  from find_uf_spec [OF i1 y1] obtain p2 py where f2: "find_uf p1 y = Some (p2, py)"
    and l2: "length p2 = length p1" and r2: "root_of p1 y py" and i2: "uf_inv p2"
    and k2: "\<forall>y s. root_of p1 y s \<longrightarrow> root_of p2 y s"
    by blast
  have keep: "root_of p2 a s" if "root_of parent a s" for a s
    using that k1 k2 by blast
  have x2: "root_of p2 x px" using r1 by (rule keep)
  have y2: "root_of p2 y py" using r2 k2 by blast
  from i2 have b2: "bounded p2" by (simp add: uf_inv_def)
  from assms(2) l1 l2 have xl: "x < length p2" by simp
  from assms(3) l1 l2 have yl: "y < length p2" by simp
  have pxl: "px < length p2" using x2 b2 xl by (rule root_of_lt)
  have pyl: "py < length p2" using y2 b2 yl by (rule root_of_lt)
  have rx: "p2 ! px = px" using x2 by (rule root_of_is_root)
  have ry: "p2 ! py = py" using y2 by (rule root_of_is_root)
  show ?thesis
  proof (cases "px = py")
    case True
    have "union_uf parent x y = Some p2" by (simp add: union_uf_def f1 f2 True)
    moreover have "same_root p2 x y" using x2 y2 True by (auto simp: same_root_def)
    moreover have "\<forall>a b. same_root parent a b \<longrightarrow> same_root p2 a b"
      using keep unfolding same_root_def by blast
    ultimately show ?thesis using l1 l2 i2 by simp
  next
    case False
    let ?p = "p2[px := py]"
    have "union_uf parent x y = Some ?p" by (simp add: union_uf_def f1 f2 False)
    moreover have "uf_inv ?p" using i2 rx ry False pxl pyl by (rule uf_inv_link)
    moreover have "same_root ?p x y"
    proof -
      from root_of_link [OF rx ry False pxl x2] have "root_of ?p x py" by simp
      moreover from root_of_link [OF rx ry False pxl y2] False have "root_of ?p y py" by simp
      ultimately show ?thesis by (auto simp: same_root_def)
    qed
    moreover have "same_root ?p a b" if "same_root parent a b" for a b
    proof -
      from that keep have "same_root p2 a b" unfolding same_root_def by blast
      with rx ry False pxl show ?thesis by (rule same_root_link)
    qed
    ultimately show ?thesis using l1 l2 by simp
  qed
qed

lemma union_pairs_spec:
  assumes "\<forall>(i, j) \<in> set ps. i < n \<and> j < n"
  shows "uf_inv parent \<Longrightarrow> length parent = n \<Longrightarrow>
     \<exists>parent'. union_pairs rf records ps parent = Some parent' \<and>
       length parent' = n \<and> uf_inv parent' \<and>
       (\<forall>a b. same_root parent a b \<longrightarrow> same_root parent' a b) \<and>
       (\<forall>(i, j) \<in> set ps.
          similarity_score rf (records ! i) (records ! j) \<ge> SIMILARITY_THRESHOLD
            \<longrightarrow> same_root parent' i j)"
  using assms
proof (induction ps arbitrary: parent)
  case Nil
  then show ?case by simp
next
  case (Cons p ps)
  obtain i j where p: "p = (i, j)" by (cases p)
  with Cons.prems have ij: "i < n" "j < n" and rest: "\<forall>(i, j) \<in> set ps. i < n \<and> j < n"
    by simp_all
  show ?case
  proof (cases "similarity_score rf (records ! i) (records ! j) \<ge> SIMILARITY_THRESHOLD")
    case True
    from union_uf_spec [of parent i j] Cons.prems(1,2) ij
    obtain p1 where u: "union_uf parent i j = Some p1"
      and l1: "length p1 = length parent" and i1: "uf_inv p1" and s1: "same_root p1 i j"
      and k1: "\<forall>a b. same_root parent a b \<longrightarrow> same_root p1 a b"
      by blast
    from Cons.IH [OF i1 _ rest] l1 Cons.prems(2) obtain p2 where
      r: "union_pairs rf records ps p1 = Some p2" and l2: "length p2 = n" and i2: "uf_inv p2"
      and k2: "\<forall>a b. same_root p1 a b \<longrightarrow> same_root p2 a b"
      and d2: "\<forall>(i, j) \<in> set ps.
          similarity_score rf (records ! i) (records ! j) \<ge> SIMILARITY_THRESHOLD
            \<longrightarrow> same_root p2 i j"
      by auto
    from True u r have "union_pairs rf records (p # ps) parent = Some p2" by (simp add: p)
    moreover from k1 k2 have "\<forall>a b. same_root parent a b \<longrightarrow> same_root p2 a b" by blast
    moreover from s1 k2 have "same_root p2 i j" by blast
    ultimately show ?thesis using l2 i2 d2 by (simp add: p)
  next
    case False
    from Cons.IH [OF Cons.prems(1,2) rest] obtain p2 where
      r: "union_pairs rf records ps parent = Some p2" and l2: "length p2 = n" and i2: "uf_inv p2"
      and k2: "\<forall>a b. same_root parent a b \<longrightarrow> same_root p2 a b"
      and d2: "\<forall>(i, j) \<in> set ps.
          similarity_score rf (records ! i) (records ! j) \<ge> SIMILARITY_THRESHOLD
            \<longrightarrow> same_root p2 i j"
      by auto
    from False r have "union_pairs rf records (p # ps) parent = Some p2" by (simp add: p)
    then show ?thesis using l2 i2 k2 d2 False by (simp add: p)
  qed
qed

lemma uf_inv_identity: "uf_inv [0 ..< n]"
  by (auto simp: uf_inv_def bounded_def descends_def)

lemma map_of_add_to_cluster:
  "map_of (add_to_cluster cm r i) = (map_of cm)(r \<mapsto> insert i (cluster_at cm r))"
  by (induction cm r i rule: add_to_cluster.induct) (auto simp: cluster_at_def fun_eq_iff)

lemma finite_add_to_cluster:
  "\<forall>(k, s) \<in> set cm. finite s \<Longrightarrow> \<forall>(k, s) \<in> set (add_to_cluster cm r i). finite s"
  by (induction cm r i rule: add_to_cluster.induct) auto

lemma build_clusters_spec:
  "uf_inv parent \<Longrightarrow> length parent = n \<Longrightarrow> set is \<subseteq> {..< n} \<Longrightarrow>
   \<forall>(k, s) \<in> set cm. finite s \<Longrightarrow>
     \<exists>cm'. build_clusters records is parent cm = Some cm' \<and>
       (\<forall>(k, s) \<in> set cm'. finite s) \<and>
       (\<forall>r s. map_of cm r = Some s \<longrightarrow> (\<exists>s'. map_of cm' r = Some s' \<and> s \<subseteq> s')) \<and>
       (\<forall>i \<in> set is. \<forall>r. root_of parent i r \<longrightarrow>
          (\<exists>s. map_of cm' r = Some s \<and> pub_id (records ! i) \<in> s))"
proof (induction "is" arbitrary: parent cm)
  case Nil
  then show ?case by simp
next
  case (Cons i "is")
  from Cons.prems have i: "i < length parent" and rest: "set is \<subseteq> {..< n}" by auto
  from find_uf_spec [OF Cons.prems(1) i] obtain p1 r where f: "find_uf parent i = Some (p1, r)"
    and l1: "length p1 = length parent" and ri: "root_of parent i r" and i1: "uf_inv p1"
    and k1: "\<forall>y s. root_of parent y s \<longrightarrow> root_of p1 y s"
    by blast
  let ?cm = "add_to_cluster cm r (pub_id (records ! i))"
  have fin: "\<forall>(k, s) \<in> set ?cm. finite s"
    using Cons.prems(4) by (rule finite_add_to_cluster)
  from l1 Cons.prems(2) have l1n: "length p1 = n" by simp
  from Cons.IH [OF i1 l1n rest fin] obtain cm' where
    b: "build_clusters records is p1 ?cm = Some cm'"
    and fin': "\<forall>(k, s) \<in> set cm'. finite s"
    and mono: "\<forall>r s. map_of ?cm r = Some s \<longrightarrow> (\<exists>s'. map_of cm' r = Some s' \<and> s \<subseteq> s')"
    and mem: "\<forall>i \<in> set is. \<forall>r. root_of p1 i r \<longrightarrow>
          (\<exists>s. map_of cm' r = Some s \<and> pub_id (records ! i) \<in> s)"
    by blast
  have run: "build_clusters records (i # is) parent cm = Some cm'"
    by (simp add: f b)
  have mono': "\<exists>s'. map_of cm' q = Some s' \<and> s \<subseteq> s'" if "map_of cm q = Some s" for q s
  proof (cases "q = r")
    case True
    with that have "map_of ?cm q = Some (insert (pub_id (records ! i)) s)"
      by (simp add: map_of_add_to_cluster cluster_at_def)
    with mono obtain s' where "map_of cm' q = Some s'"
      "insert (pub_id (records ! i)) s \<subseteq> s'" by blast
    then show ?thesis by auto
  next
    case False
    with that have "map_of ?cm q = Some s" by (simp add: map_of_add_to_cluster)
    with mono show ?thesis by blast
  qed
  have here: "\<exists>s. map_of cm' q = Some s \<and> pub_id (records ! i) \<in> s" if "root_of parent i q" for q
  proof -
    from that ri have "q = r" by (rule root_of_det)
    moreover have "map_of ?cm r = Some (insert (pub_id (records ! i)) (cluster_at cm r))"
      by (simp add: map_of_add_to_cluster)
    ultimately show ?thesis using mono by blast
  qed
  have later: "\<exists>s. map_of cm' q = Some s \<and> pub_id (records ! j) \<in> s"
    if "j \<in> set is" "root_of parent j q" for j q
    using that k1 mem by blast
  from run fin' mono' here later show ?case by auto
qed

lemma find_clusters_spec:
  "\<exists>cs. find_clusters rf records = Some cs \<and> (\<forall>c \<in> set cs. finite c) \<and>
     (\<forall>i j. i < j \<and> j < length records \<and>
        similarity_score rf (records ! i) (records ! j) \<ge> SIMILARITY_THRESHOLD \<longrightarrow>
        (\<exists>c \<in> set cs. pub_id (records ! i) \<in> c \<and> pub_id (records ! j) \<in> c))"
proof (cases "records = []")
  case True
  then show ?thesis by (simp add: find_clusters_def)
next
  case False
  define n where "n = length records"
  from False have n0: "n \<noteq> 0" by (simp add: n_def)
  have pairs: "\<forall>(i, j) \<in> set (index_pairs n). i < n \<and> j < n"
    by (auto simp: index_pairs_iff)
  from union_pairs_spec [OF pairs uf_inv_identity, of n rf records] obtain p1 where
    u: "union_pairs rf records (index_pairs n) [0 ..< n] = Some p1"
    and l1: "length p1 = n" and i1: "uf_inv p1"
    and linked: "\<forall>(i, j) \<in> set (index_pairs n).
          similarity_score rf (records ! i) (records ! j) \<ge> SIMILARITY_THRESHOLD
            \<longrightarrow> same_root p1 i j"
    by auto
  have sub: "set [0 ..< n] \<subseteq> {..< n}" and fin0: "\<forall>(k, s) \<in> set ([] :: (nat \<times> int set) list). finite s"
    by auto
  from build_clusters_spec [OF i1 l1 sub fin0, of records] obtain cm where
    b: "build_clusters records [0 ..< n] p1 [] = Some cm"
    and fin: "\<forall>(k, s) \<in> set cm. finite s"
    and mem: "\<forall>i \<in> set [0 ..< n]. \<forall>r. root_of p1 i r \<longrightarrow>
          (\<exists>s. map_of cm r = Some s \<and> pub_id (records ! i) \<in> s)"
    by blast
  have run: "find_clusters rf records = Some (map snd cm)"
    unfolding find_clusters_def Let_def n_def [symmetric] using n0 by (simp add: u b)
  have "\<exists>c \<in> set (map snd cm). pub_id (records ! i) \<in> c \<and> pub_id (records ! j) \<in> c"
    if "i < j" "j < n"
      "similarity_score rf (records ! i) (records ! j) \<ge> SIMILARITY_THRESHOLD" for i j
  proof -
    from that linked have "same_root p1 i j" by (auto simp: index_pairs_iff)
    then obtain r where ri: "root_of p1 i r" and rj: "root_of p1 j r"
      by (auto simp: same_root_def)
    from that have "i \<in> set [0 ..< n]" "j \<in> set [0 ..< n]" by auto
    with mem ri rj obtain s s' where "map_of cm r = Some s" "pub_id (records ! i) \<in> s"
      "map_of cm r = Some s'" "pub_id (records ! j) \<in> s'" by blast
    then have "(r, s) \<in> set cm" "pub_id (records ! i) \<in> s" "pub_id (records ! j) \<in> s"
      by (auto dest: map_of_SomeD)
    then show ?thesis by force
  qed
  moreover from fin have "\<forall>c \<in> set (map snd cm). finite c" by auto
  ultimately show ?thesis using run unfolding n_def by blast
qed

lemma process_blocks_total: "\<exists>acc'. process_blocks rf bs acc = Some acc'"
proof (induction bs arbitrary: acc)
  case Nil
  show ?case by simp
next
  case (Cons b bs)
  obtain key rs where b: "b = (key, rs)" by (cases b)
  from find_clusters_spec [of rf "unique_records {} rs"] obtain cs where
    "find_clusters rf (unique_records {} rs) = Some cs" by blast
  with Cons.IH show ?case by (simp add: b Let_def)
qed

lemma deduplicate_total:
  "\<exists>cls. duplicate_clusters rf table = Some cls \<and>
         deduplicate rf table = Some (foldl assign_canonical Map.empty cls)"
  using process_blocks_total [of rf "build_blocks (select_rows table)" "([], {})"]
  by (auto simp: duplicate_clusters_def deduplicate_def)

subsection \<open>A second run\<close>

lemma block_of_add_record:
  "block_of (add_record bs r) key = block_of bs key @ (if filed_under key r then [r] else [])"
  by (auto simp: add_record_def Let_def block_of_append_block filed_under_def)

lemma block_of_foldl_add_record:
  "block_of (foldl add_record bs rows) key = block_of bs key @ filter (filed_under key) rows"
  by (induction rows arbitrary: bs) (simp_all add: block_of_add_record)

lemma block_of_build_blocks:
  "block_of (build_blocks rows) key = filter (filed_under key) rows"
  unfolding build_blocks_def block_of_foldl_add_record by (simp add: block_of_def)

lemma keys_append_block: "fst ` set (append_block bs key r) = insert key (fst ` set bs)"
  by (induction bs key r rule: append_block.induct) auto

lemma distinct_append_block:
  "distinct (map fst bs) \<Longrightarrow> distinct (map fst (append_block bs key r))"
proof (induction bs key r rule: append_block.induct)
  case (1 key r)
  show ?case by simp
next
  case (2 k rs bs key r)
  show ?case
  proof (cases "k = key")
    case True
    with "2.prems" show ?thesis by simp
  next
    case False
    with 2 keys_append_block [of bs key r] show ?thesis by auto
  qed
qed

lemma distinct_add_record: "distinct (map fst bs) \<Longrightarrow> distinct (map fst (add_record bs r))"
  by (simp add: add_record_def Let_def distinct_append_block)

lemma distinct_foldl_add_record:
  "distinct (map fst bs) \<Longrightarrow> distinct (map fst (foldl add_record bs rows))"
  by (induction rows arbitrary: bs) (simp_all add: distinct_add_record)

lemma block_in_build_blocks:
  assumes "(key, rs) \<in> set (build_blocks rows)"
  shows "rs = filter (filed_under key) rows"
proof -
  have "distinct (map fst (build_blocks rows))"
    by (simp add: build_blocks_def distinct_foldl_add_record)
  with assms have "map_of (build_blocks rows) key = Some rs" by simp
  then have "block_of (build_blocks rows) key = rs" by (simp add: block_of_def)
  then show ?thesis by (simp add: block_of_build_blocks)
qed

lemma build_blocks_holds:
  assumes "filter (filed_under key) rows \<noteq> []"
  shows "(key, filter (filed_under key) rows) \<in> set (build_blocks rows)"
proof -
  from assms have "block_of (build_blocks rows) key \<noteq> []" by (simp add: block_of_build_blocks)
  then obtain rs where "map_of (build_blocks rows) key = Some rs"
    by (cases "map_of (build_blocks rows) key") (auto simp: block_of_def)
  then have "(key, rs) \<in> set (build_blocks rows)" by (rule map_of_SomeD)
  with block_in_build_blocks [OF this] show ?thesis by simp
qed

lemma select_rows_filter: "select_rows (filter P table) = filter P (select_rows table)"
  by (simp add: select_rows_def filter_sort conj_commute)

lemma distinct_ids_select_rows:
  assumes "distinct (map pub_id table)"
  shows "distinct (map pub_id (select_rows table))"
proof -
  let ?f = "filter (\<lambda>r. title_normalized r \<noteq> None \<and> pub_year r \<noteq> None) table"
  from assms have "distinct (map pub_id ?f)" by (rule distinct_map_filter)
  then have "distinct ?f" "inj_on pub_id (set ?f)" by (simp_all add: distinct_map)
  then show ?thesis by (simp add: select_rows_def distinct_map)
qed

lemma unique_records_distinct_ids:
  "distinct (map pub_id rs) \<Longrightarrow> pub_id ` set rs \<inter> seen = {} \<Longrightarrow> unique_records seen rs = rs"
proof (induction rs arbitrary: seen)
  case Nil
  show ?case by simp
next
  case (Cons r rs)
  then have "pub_id ` set rs \<inter> insert (pub_id r) seen = {}" by auto
  with Cons show ?case by auto
qed

lemma process_blocks_unlinked:
  assumes "\<forall>(key, rs) \<in> set bs. unlinked rf (unique_records {} rs)"
  shows "process_blocks rf bs acc = Some acc"
  using assms
proof (induction bs)
  case Nil
  then show ?case by simp
next
  case (Cons b bs)
  obtain key rs where b: "b = (key, rs)" by (cases b)
  with Cons.prems have "unlinked rf (unique_records {} rs)" by simp
  then have "find_clusters rf (unique_records {} rs)
      = Some (map (\<lambda>r. {pub_id r}) (unique_records {} rs))"
    by (intro find_clusters_below) (simp add: unlinked_def)
  moreover have "add_clusters (map (\<lambda>r. {pub_id r}) (unique_records {} rs)) acc = acc"
    by (rule add_clusters_singletons) auto
  ultimately show ?case using Cons b by (simp add: Let_def)
qed

lemma block_clusters_member:
  assumes "(key, rs) \<in> set bs" and "2 \<le> length rs" and "2 \<le> length (unique_records {} rs)"
    and "find_clusters rf (unique_records {} rs) = Some cs" and "c \<in> set cs" and "1 < card c"
  shows "c \<in> set (block_clusters rf bs)"
proof -
  let ?found = "\<lambda>(key, block_records).
       if length block_records < 2 then []
       else (let uniq = unique_records {} block_records
             in if length uniq < 2 then []
                else (case find_clusters rf uniq of
                        None \<Rightarrow> []
                      | Some clusters \<Rightarrow> filter (\<lambda>cluster. card cluster > 1) clusters))"
  from assms(2-6) have "c \<in> set (?found (key, rs))" by (simp add: Let_def)
  with assms(1) show ?thesis
    unfolding block_clusters_def set_concat set_map by blast
qed

lemma linked_in_block_cluster:
  assumes rs: "(key, rs) \<in> set bs" and ids: "distinct (map pub_id rs)"
    and ij: "i < j" "j < length rs"
    and sim: "similarity_score rf (rs ! i) (rs ! j) \<ge> SIMILARITY_THRESHOLD"
  shows "\<exists>c \<in> set (block_clusters rf bs). pub_id (rs ! i) \<in> c \<and> pub_id (rs ! j) \<in> c"
proof -
  have u: "unique_records {} rs = rs" by (rule unique_records_distinct_ids [OF ids]) simp
  from ij have len: "2 \<le> length rs" by simp
  from find_clusters_spec [of rf rs] obtain cs where
    fc: "find_clusters rf rs = Some cs" and fin: "\<forall>c \<in> set cs. finite c" and
    link: "\<forall>i j. i < j \<and> j < length rs \<and>
             similarity_score rf (rs ! i) (rs ! j) \<ge> SIMILARITY_THRESHOLD \<longrightarrow>
             (\<exists>c \<in> set cs. pub_id (rs ! i) \<in> c \<and> pub_id (rs ! j) \<in> c)" by blast
  from link ij sim obtain c where
    c: "c \<in> set cs" "pub_id (rs ! i) \<in> c" "pub_id (rs ! j) \<in> c" by blast
  from ids ij have ne: "pub_id (rs ! i) \<noteq> pub_id (rs ! j)"
    by (auto simp: distinct_conv_nth)
  from fin c(1) have "finite c" by simp
  moreover from c have "{pub_id (rs ! i), pub_id (rs ! j)} \<subseteq> c" by simp
  ultimately have "card {pub_id (rs ! i), pub_id (rs ! j)} \<le> card c" by (rule card_mono)
  with ne have "1 < card c" by simp
  with rs len fc c(1) have "c \<in> set (block_clusters rf bs)"
    by (intro block_clusters_member [where rs = rs and cs = cs]) (simp_all add: u)
  with c show ?thesis by blast
qed

text \<open>
  C7, as the code has it. The ids of the table are distinct. When the first run loses
  nothing, that is, when every cluster of more than one record that \<open>find_clusters\<close>
  returns for a block of the first run is kept or lies within a kept cluster, the first run
  returns, and a second run over its canonical records finds no cluster and leaves every
  \<open>canonical_id\<close> empty.
\<close>

theorem rerun_identity:
  assumes ids: "distinct (map pub_id table)" and kept: "nothing_lost rf table"
  shows "rerun_clusters rf table = Some [] \<and> rerun rf table = Some Map.empty"
proof -
  from deduplicate_total [of rf table] obtain cls where
    cls: "duplicate_clusters rf table = Some cls" and
    run: "deduplicate rf table = Some (foldl assign_canonical Map.empty cls)" by blast
  define cmap where "cmap = foldl assign_canonical Map.empty cls"
  define P where "P = (\<lambda>r :: publication. cmap (pub_id r) = None \<or> cmap (pub_id r) = Some (pub_id r))"
  define rows where "rows = select_rows table"
  define Q where "Q = (\<lambda>x y. similarity_score rf x y \<ge> SIMILARITY_THRESHOLD \<longrightarrow>
                         (\<exists>a \<in> set cls. pub_id x \<in> a \<and> pub_id y \<in> a))"
  have rows': "select_rows (unique_works table cmap) = filter P rows"
    by (simp add: unique_works_def P_def rows_def select_rows_filter)
  have drows: "distinct (map pub_id rows)"
    unfolding rows_def using ids by (rule distinct_ids_select_rows)
  have lowest: "cmap i = Some (Min a)" if "a \<in> set cls" and "i \<in> a" for a i
    using canonical_is_lowest_id [OF cls run] that by (simp add: cmap_def)
  have lost: "\<exists>a \<in> set cls. c \<subseteq> a" if "c \<in> set (block_clusters rf (build_blocks rows))" for c
    using kept cls that by (auto simp: nothing_lost_def rows_def list_all_iff list_ex_iff)
  have "\<forall>(key, rs') \<in> set (build_blocks (filter P rows)). unlinked rf (unique_records {} rs')"
  proof clarify
    fix b p rs'
    assume mem: "((b, p), rs') \<in> set (build_blocks (filter P rows))"
    define rs where "rs = filter (filed_under (b, p)) rows"
    from block_in_build_blocks [OF mem] have rs': "rs' = filter P rs"
      by (simp add: rs_def conj_commute)
    have drs: "distinct (map pub_id rs)"
      unfolding rs_def using drows by (rule distinct_map_filter)
    then have drs': "distinct (map pub_id rs')"
      unfolding rs' by (rule distinct_map_filter)
    have u': "unique_records {} rs' = rs'"
      by (rule unique_records_distinct_ids [OF drs']) simp
    have "sorted_wrt Q rs"
      unfolding sorted_wrt_iff_nth_less
    proof (intro allI impI)
      fix i j
      assume ij: "i < j" "j < length rs"
      show "Q (rs ! i) (rs ! j)"
        unfolding Q_def
      proof
        assume sim: "SIMILARITY_THRESHOLD \<le> similarity_score rf (rs ! i) (rs ! j)"
        from ij have "rs \<noteq> []" by auto
        then have "((b, p), rs) \<in> set (build_blocks rows)"
          unfolding rs_def by (rule build_blocks_holds)
        from linked_in_block_cluster [OF this drs ij sim] obtain c where
          c: "c \<in> set (block_clusters rf (build_blocks rows))"
             "pub_id (rs ! i) \<in> c" "pub_id (rs ! j) \<in> c" by blast
        from lost [OF c(1)] obtain a where "a \<in> set cls" "c \<subseteq> a" by blast
        with c show "\<exists>a \<in> set cls. pub_id (rs ! i) \<in> a \<and> pub_id (rs ! j) \<in> a" by blast
      qed
    qed
    then have sorted: "sorted_wrt Q rs'"
      unfolding rs' by (rule sorted_wrt_filter)
    show "unlinked rf (unique_records {} rs')"
      unfolding u' unlinked_def
    proof (intro allI impI)
      fix i j
      assume ij: "i < j \<and> j < length rs'"
      show "similarity_score rf (rs' ! i) (rs' ! j) < SIMILARITY_THRESHOLD"
      proof (rule ccontr)
        assume "\<not> similarity_score rf (rs' ! i) (rs' ! j) < SIMILARITY_THRESHOLD"
        then have sim: "SIMILARITY_THRESHOLD \<le> similarity_score rf (rs' ! i) (rs' ! j)" by simp
        from sorted ij have "Q (rs' ! i) (rs' ! j)"
          by (simp add: sorted_wrt_iff_nth_less)
        with sim obtain a where
          a: "a \<in> set cls" "pub_id (rs' ! i) \<in> a" "pub_id (rs' ! j) \<in> a"
          unfolding Q_def by blast
        from ij have "rs' ! i \<in> set rs'" "rs' ! j \<in> set rs'" by simp_all
        then have "P (rs' ! i)" "P (rs' ! j)" by (simp_all add: rs')
        with lowest [OF a(1,2)] lowest [OF a(1,3)]
        have "pub_id (rs' ! i) = pub_id (rs' ! j)" by (simp add: P_def)
        moreover from drs' ij have "pub_id (rs' ! i) \<noteq> pub_id (rs' ! j)"
          by (auto simp: distinct_conv_nth)
        ultimately show False by simp
      qed
    qed
  qed
  then have "process_blocks rf (build_blocks (select_rows (unique_works table cmap))) ([], {})
               = Some ([], {})"
    unfolding rows' by (rule process_blocks_unlinked)
  then have again: "duplicate_clusters rf (unique_works table cmap) = Some []"
    by (simp add: duplicate_clusters_def)
  then have "deduplicate rf (unique_works table cmap) = Some Map.empty"
    by (simp add: deduplicate_def)
  with again run show ?thesis
    unfolding rerun_clusters_def rerun_def cmap_def by simp
qed

theorem rerun_identity_witness:
  "duplicate_clusters (Some exact_ratio) [edition_1500, edition_1510, edition_1514]
     = Some [{1, 2}] \<and>
   block_of (build_blocks (select_rows (unique_works [edition_1500, edition_1510, edition_1514]
       (foldl assign_canonical Map.empty [{1, 2}])))) (1510, ''de revolutionibus orbium'')
     = [edition_1510, edition_1514] \<and>
   rerun_clusters (Some exact_ratio) [edition_1500, edition_1510, edition_1514] = Some [] \<and>
   rerun (Some exact_ratio) [edition_1500, edition_1510, edition_1514] = Some Map.empty"
proof -
  let ?T = "[edition_1500, edition_1510, edition_1514]"
  have first: "duplicate_clusters (Some exact_ratio) ?T = Some [{1, 2}]"
    by code_simp
  have second: "block_of (build_blocks (select_rows (unique_works ?T
       (foldl assign_canonical Map.empty [{1, 2}])))) (1510, ''de revolutionibus orbium'')
     = [edition_1510, edition_1514]"
    by code_simp
  have ids: "distinct (map pub_id ?T)"
    by code_simp
  have kept: "nothing_lost (Some exact_ratio) ?T"
    by code_simp
  from rerun_identity [OF ids kept] first second show ?thesis by simp
qed

text \<open>
  C7, as the specification states it, fails. A cluster that meets an earlier one is left
  out, so its records stay canonical although they score above the threshold: here the
  first run keeps \<open>{1, 2}\<close> and drops \<open>{1, 3}\<close>, and the second run, over the
  records 1 and 3, merges them.
\<close>

theorem rerun_merges:
  "rerun_clusters None [edition_1500, edition_1510, edition_1520] = Some [{1, 3}]"
  by code_simp


section \<open>No match\<close>

lemma classify_low: "score < 60 / 100 \<Longrightarrow> classify llm score am ym = Low"
  by (simp add: classify_def EMBEDDING_THRESHOLD_HIGH_def EMBEDDING_THRESHOLD_MEDIUM_def
      EMBEDDING_THRESHOLD_LOW_def)

lemma find_candidates_confidence:
  assumes "find_candidates fz m bph hits = Inr cs" and "c \<in> set cs"
  shows "cand_confidence c
           = classify (use_llm m) (embedding_score c) (author_match c) (year_match c)"
proof -
  from assms obtain cs' where
    scan: "scan_hits fz m bph hits = Inr cs'" and "cs = sort_key (\<lambda>c. - embedding_score c) cs'"
    by (auto simp: find_candidates_def split: sum.splits)
  with assms(2) have "c \<in> set cs'" by simp
  with scan show ?thesis by (rule scan_hits_confidence)
qed

text \<open>
  C9, as the code has it. When \<open>find_candidates\<close> returns nothing, the result has no
  target, the type \<open>no_candidates\<close> and the rationale \<open>No candidates found above
  threshold\<close>. When it returns candidates, the best of them scores below 0.60 and the
  matcher is not in the mode \<open>full\<close>, the result has no target, the type \<open>no_match\<close> and
  the rationale \<open>Best candidate score (...) below threshold\<close>. The two results differ in
  type and in rationale.
\<close>

theorem no_match_causes:
  assumes "match_work fz m bph hits orc n = Inr (r, n')"
  shows "(find_candidates fz m bph hits = Inr [] \<longrightarrow>
            res_ia_work r = None \<and> \<not> is_match r \<and> match_type r = ''no_candidates'' \<and>
            reasoning r = Plain ''No candidates found above threshold'') \<and>
         (\<forall>best others.
            find_candidates fz m bph hits = Inr (best # others) \<and>
            embedding_score best < 60 / 100 \<and> llm_mode m \<noteq> ''full'' \<longrightarrow>
            res_ia_work r = None \<and> \<not> is_match r \<and> match_type r = ''no_match'' \<and>
            reasoning r = Scored ''Best candidate score ('' (embedding_score best)
                            '') below threshold'')"
proof (intro conjI allI impI)
  assume "find_candidates fz m bph hits = Inr []"
  with assms have r: "r = fst (decide m bph [] orc n)"
    by (simp add: match_work_def)
  show "res_ia_work r = None" "\<not> is_match r" "match_type r = ''no_candidates''"
    "reasoning r = Plain ''No candidates found above threshold''"
    by (simp_all add: r decide_def)
next
  fix best others
  assume a: "find_candidates fz m bph hits = Inr (best # others) \<and>
            embedding_score best < 60 / 100 \<and> llm_mode m \<noteq> ''full''"
  then have "cand_confidence best = Low"
    using find_candidates_confidence [of fz m bph hits "best # others" best]
    by (simp add: classify_low)
  with a assms have r: "r = fst (decide m bph (best # others) orc n)"
    and low: "cand_confidence best = Low" and mode: "llm_mode m \<noteq> ''full''"
    by (simp_all add: match_work_def)
  show "res_ia_work r = None" "\<not> is_match r" "match_type r = ''no_match''"
    "reasoning r = Scored ''Best candidate score ('' (embedding_score best)
                            '') below threshold''"
    using low mode by (simp_all add: r decide_def)
qed

theorem no_match_causes_witness:
  "match_work basic_fuzz hybrid_matcher copernicus_bph [] prose_answer 0
     = Inr (decide hybrid_matcher copernicus_bph [] prose_answer 0) \<and>
   res_ia_work (fst (decide hybrid_matcher copernicus_bph [] prose_answer 0)) = None \<and>
   match_type (fst (decide hybrid_matcher copernicus_bph [] prose_answer 0)) = ''no_candidates'' \<and>
   match_work basic_fuzz hybrid_matcher copernicus_bph [(1 / 2, 0)] prose_answer 0
     = Inr (decide hybrid_matcher copernicus_bph [weak_candidate] prose_answer 0) \<and>
   embedding_score weak_candidate < 60 / 100 \<and>
   res_ia_work (fst (decide hybrid_matcher copernicus_bph [weak_candidate] prose_answer 0)) = None \<and>
   match_type (fst (decide hybrid_matcher copernicus_bph [weak_candidate] prose_answer 0)) = ''no_match''"
proof -
  let ?d0 = "decide hybrid_matcher copernicus_bph [] prose_answer 0"
  let ?d1 = "decide hybrid_matcher copernicus_bph [weak_candidate] prose_answer 0"
  have fc0: "find_candidates basic_fuzz hybrid_matcher copernicus_bph [] = Inr []"
    by (simp add: find_candidates_def)
  have fc1: "find_candidates basic_fuzz hybrid_matcher copernicus_bph [(1 / 2, 0)]
               = Inr [weak_candidate]"
    by (simp add: find_candidates_def hybrid_matcher_def weak_candidate_def)
  have mw0: "match_work basic_fuzz hybrid_matcher copernicus_bph [] prose_answer 0
               = Inr (fst ?d0, snd ?d0)"
    by (simp add: match_work_def fc0)
  have mw1: "match_work basic_fuzz hybrid_matcher copernicus_bph [(1 / 2, 0)] prose_answer 0
               = Inr (fst ?d1, snd ?d1)"
    by (simp add: match_work_def fc1)
  have score: "embedding_score weak_candidate < 60 / 100"
    by (simp add: weak_candidate_def candidate_def Let_def)
  have mode: "llm_mode hybrid_matcher \<noteq> ''full''"
    by (simp add: hybrid_matcher_def)
  from no_match_causes [OF mw0] fc0
  have r0: "res_ia_work (fst ?d0) = None \<and> match_type (fst ?d0) = ''no_candidates''"
    by blast
  from no_match_causes [OF mw1] fc1 score mode
  have r1: "res_ia_work (fst ?d1) = None \<and> match_type (fst ?d1) = ''no_match''"
    by blast
  from mw0 mw1 score r0 r1 show ?thesis by simp
qed

text \<open>
  C9, as the specification states it, fails in the mode \<open>full\<close>: there every best candidate
  that is not in the tier \<open>high\<close> goes to the reasoning service, however low its score, and
  the answer of the service decides. Here the only candidate scores 0.1 and is returned as
  a match.
\<close>

theorem full_mode_low_score_match:
  "find_candidates basic_fuzz full_matcher copernicus_bph [(1 / 10, 0)] = Inr [faint_candidate] \<and>
   embedding_score faint_candidate < 60 / 100 \<and>
   map_sum id (\<lambda>(r, n). (res_ia_work r, is_match r, match_type r, reasoning r))
     (match_work basic_fuzz full_matcher copernicus_bph [(1 / 10, 0)] same_work_answer 0)
     = Inr (Some copernicus_ia, True, ''same_work'', Plain ''Same author and title'')"
  by code_simp


section \<open>Answers of the reasoning service that cannot be parsed\<close>

text \<open>
  C6, as the code has it. When the answer holds no object in braces, or \<open>json.loads\<close>
  rejects the object, \<open>llm_evaluate\<close> returns after its one request: a result without
  target, not a match, with the confidence \<open>low\<close>. Without an object the type is
  \<open>different\<close> and the rationale is the fixed text \<open>Could not parse response\<close>; with a
  rejected object the type is \<open>error\<close> and the rationale is \<open>LLM error:\<close> followed by the
  message of the exception.
\<close>

theorem unparseable_response:
  assumes "reply (orc n) = Replied text"
    and "json_search text = None \<or> (\<exists>msg. decoded (orc n) = Inl msg)"
  shows "snd (llm_evaluate c orc n) = Suc n \<and>
         res_ia_work (fst (llm_evaluate c orc n)) = None \<and>
         \<not> is_match (fst (llm_evaluate c orc n)) \<and>
         res_confidence (fst (llm_evaluate c orc n)) = JStr ''low'' \<and>
         (json_search text = None \<longrightarrow>
            match_type (fst (llm_evaluate c orc n)) = ''different'' \<and>
            reasoning (fst (llm_evaluate c orc n)) = Plain ''Could not parse response'' \<and>
            res_method (fst (llm_evaluate c orc n)) = ''llm'') \<and>
         (\<forall>msg. json_search text \<noteq> None \<and> decoded (orc n) = Inl msg \<longrightarrow>
            match_type (fst (llm_evaluate c orc n)) = ''error'' \<and>
            reasoning (fst (llm_evaluate c orc n)) = Plain (''LLM error: '' @ msg) \<and>
            res_method (fst (llm_evaluate c orc n)) = ''llm_error'')"
proof (cases "json_search text")
  case None
  have low: "lower ''DIFFERENT'' = ''different''" by code_simp
  from None assms(1) have
    "llm_try c (orc n) =
       Inr \<lparr> res_bph_work = cand_bph_work c, res_ia_work = None, is_match = False,
             res_confidence = JStr ''low'', match_type = lower ''DIFFERENT'',
             reasoning = Plain ''Could not parse response'', res_method = ''llm'' \<rparr>"
    by (simp add: llm_try_def fallback_result_def item_def as_rationale_def)
  with None show ?thesis by (simp add: llm_evaluate_def low)
next
  case (Some g)
  with assms(2) obtain msg where msg: "decoded (orc n) = Inl msg" by auto
  with Some assms(1) have "llm_try c (orc n) = Inl msg"
    by (simp add: llm_try_def)
  with Some msg show ?thesis by (simp add: llm_evaluate_def)
qed

theorem unparseable_response_witness:
  "reply (prose_answer 0) = Replied ''I am unable to compare these two records.'' \<and>
   json_search ''I am unable to compare these two records.'' = None \<and>
   snd (llm_evaluate weak_candidate prose_answer 0) = 1 \<and>
   match_type (fst (llm_evaluate weak_candidate prose_answer 0)) = ''different'' \<and>
   reasoning (fst (llm_evaluate weak_candidate prose_answer 0)) = Plain ''Could not parse response'' \<and>
   json_search ''{verdict: SAME_WORK, confidence: high, reasoning: none}'' \<noteq> None \<and>
   snd (llm_evaluate weak_candidate malformed_answer 0) = 1 \<and>
   match_type (fst (llm_evaluate weak_candidate malformed_answer 0)) = ''error'' \<and>
   res_confidence (fst (llm_evaluate weak_candidate malformed_answer 0)) = JStr ''low''"
proof -
  have p1: "reply (prose_answer 0) = Replied ''I am unable to compare these two records.''"
    by (simp add: prose_answer_def)
  have p2: "json_search ''I am unable to compare these two records.'' = None"
    by simp
  have m1: "reply (malformed_answer 0)
              = Replied ''{verdict: SAME_WORK, confidence: high, reasoning: none}''"
    by (simp add: malformed_answer_def)
  have m2: "json_search ''{verdict: SAME_WORK, confidence: high, reasoning: none}'' \<noteq> None"
    by simp
  have m3: "decoded (malformed_answer 0) =
      Inl ''Expecting property name enclosed in double quotes: line 1 column 2 (char 1)''"
    by (simp add: malformed_answer_def)
  from unparseable_response [of prose_answer 0, OF p1, of weak_candidate] p2
  have a: "snd (llm_evaluate weak_candidate prose_answer 0) = 1 \<and>
   match_type (fst (llm_evaluate weak_candidate prose_answer 0)) = ''different'' \<and>
   reasoning (fst (llm_evaluate weak_candidate prose_answer 0)) = Plain ''Could not parse response''"
    by simp
  from unparseable_response [of malformed_answer 0, OF m1, of weak_candidate] m2 m3
  have b: "snd (llm_evaluate weak_candidate malformed_answer 0) = 1 \<and>
   match_type (fst (llm_evaluate weak_candidate malformed_answer 0)) = ''error'' \<and>
   res_confidence (fst (llm_evaluate weak_candidate malformed_answer 0)) = JStr ''low''"
    by simp
  from p1 p2 m2 a b show ?thesis by blast
qed

text \<open>
  C6, as the specification states it, fails: the text of the answer is not kept. For an
  answer in prose the rationale is the fixed text; for malformed JSON the type is
  \<open>error\<close>, not \<open>different\<close>, and the rationale is the message of the exception.
\<close>

theorem raw_response_not_retained:
  "\<not> retains ''I am unable to compare these two records.''
       (reasoning (fst (llm_evaluate weak_candidate prose_answer 0))) \<and>
   match_type (fst (llm_evaluate weak_candidate malformed_answer 0)) \<noteq> ''different'' \<and>
   \<not> retains ''{verdict: SAME_WORK, confidence: high, reasoning: none}''
       (reasoning (fst (llm_evaluate weak_candidate malformed_answer 0)))"
  by code_simp


section \<open>Symmetry of the similarity signals\<close>

lemma word_set_sim_sym: "word_set_sim a b = word_set_sim b a"
  by (simp add: word_set_sim_def Let_def Int_commute Un_commute conj_commute)

lemma token_sim_sym:
  assumes "\<forall>f. rf = Some f \<longrightarrow> (\<forall>a b. f a b = f b a)"
  shows "token_sim rf a b = token_sim rf b a"
  using assms by (cases rf) (simp_all add: token_sim_def word_set_sim_sym)

lemma year_signal_sym: "year_signal p1 p2 = year_signal p2 p1"
  by (simp add: year_signal_def Let_def abs_minus_commute conj_commute)

lemma dedupe_signals_sym:
  assumes "\<forall>f. rf = Some f \<longrightarrow> (\<forall>a b. f a b = f b a)"
  shows "title_signal rf p1 p2 = title_signal rf p2 p1"
    and "creator_signal rf p1 p2 = creator_signal rf p2 p1"
  using token_sim_sym [OF assms]
  by (simp_all add: title_signal_def creator_signal_def conj_commute)

lemma similarity_score_sym:
  assumes "\<forall>f. rf = Some f \<longrightarrow> (\<forall>a b. f a b = f b a)"
  shows "similarity_score rf p1 p2 = similarity_score rf p2 p1"
  unfolding similarity_score_def
  by (simp only: dedupe_signals_sym [OF assms, of p1 p2] year_signal_sym [of p1 p2])

lemma title_similarity_sym:
  assumes "\<forall>a b. ratio (scorers self) a b = ratio (scorers self) b a"
    and "\<forall>a b. token_set_ratio (scorers self) a b = token_set_ratio (scorers self) b a"
  shows "calculate_title_similarity self t1 t2 = calculate_title_similarity self t2 t1"
proof -
  have r: "ratio (scorers self) a b = ratio (scorers self) b a" for a b using assms(1) by simp
  have t: "token_set_ratio (scorers self) a b = token_set_ratio (scorers self) b a" for a b
    using assms(2) by simp
  show ?thesis
    unfolding calculate_title_similarity_def Let_def
    by (simp add: r [of "dedup_normalize_text self t1"] t [of "dedup_normalize_text self t1"]
        Int_commute Un_commute disj_commute conj_commute)
qed

lemma matching_initials_sym:
  "matching_initials ws1 ws2 = matching_initials ws2 ws1"
proof -
  have "zip ws1 ws2 = map (\<lambda>(x, y). (y, x)) (zip ws2 ws1)" by (rule zip_commute)
  then have "filter (\<lambda>(w1, w2). hd w1 = hd w2) (zip ws1 ws2)
      = map (\<lambda>(x, y). (y, x)) (filter (\<lambda>(w1, w2). hd w1 = hd w2) (zip ws2 ws1))"
    by (simp add: filter_map comp_def case_prod_unfold eq_commute)
  then show ?thesis by (simp add: matching_initials_def)
qed

lemma author_similarity_unfold:
  assumes "\<not> isna a1" and "\<not> isna a2"
  shows "calculate_author_similarity self a1 a2 =
     (if surname_of (split_ws (dedup_normalize_text self a1))
           = surname_of (split_ws (dedup_normalize_text self a2)) \<and>
         surname_of (split_ws (dedup_normalize_text self a1)) \<noteq> []
      then Inr 1
      else if length (split_ws (dedup_normalize_text self a1))
                = length (split_ws (dedup_normalize_text self a2))
      then (if length (split_ws (dedup_normalize_text self a1)) = 0 then Inl ZeroDivisionError
            else Inr (min 1 (ratio (scorers self) (dedup_normalize_text self a1)
                               (dedup_normalize_text self a2) / 100
                   + of_nat (matching_initials (split_ws (dedup_normalize_text self a1))
                                               (split_ws (dedup_normalize_text self a2)))
                       / of_nat (length (split_ws (dedup_normalize_text self a1))) * (2 / 10))))
      else Inr (min 1 (ratio (scorers self) (dedup_normalize_text self a1)
                         (dedup_normalize_text self a2) / 100)))"
  using assms unfolding calculate_author_similarity_def Let_def
  by (simp only: simp_thms if_False)

lemma author_branches_sym:
  fixes s1 s2 :: string and l1 l2 :: nat and f :: "nat \<Rightarrow> rat" and z :: rat
  shows "(if s1 = s2 \<and> s1 \<noteq> [] then Inr 1
          else if l1 = l2 then (if l1 = 0 then Inl ZeroDivisionError else Inr (f l1))
          else Inr z)
       = (if s2 = s1 \<and> s2 \<noteq> [] then Inr 1
          else if l2 = l1 then (if l2 = 0 then Inl ZeroDivisionError else Inr (f l2))
          else (Inr z :: py_error + rat))"
  by auto

lemma author_similarity_sym:
  assumes "\<forall>a b. ratio (scorers self) a b = ratio (scorers self) b a"
  shows "calculate_author_similarity self a1 a2 = calculate_author_similarity self a2 a1"
proof (cases "isna a1 \<or> isna a2")
  case True
  then show ?thesis by (auto simp: calculate_author_similarity_def)
next
  case False
  define n1 n2 where "n1 = dedup_normalize_text self a1" and "n2 = dedup_normalize_text self a2"
  define w1 w2 where "w1 = split_ws n1" and "w2 = split_ws n2"
  have r: "ratio (scorers self) n2 n1 = ratio (scorers self) n1 n2" using assms by simp
  have m: "matching_initials w2 w1 = matching_initials w1 w2" by (rule matching_initials_sym)
  from False have na: "\<not> isna a1" "\<not> isna a2" by simp_all
  note L = author_similarity_unfold [OF na, of self, folded n1_def n2_def, folded w1_def w2_def]
  note R = author_similarity_unfold [OF na(2,1), of self, folded n1_def n2_def,
      folded w1_def w2_def]
  show ?thesis
    unfolding L R r m
    by (rule author_branches_sym
        [where f = "\<lambda>l. min 1 (ratio (scorers self) n1 n2 / 100
                              + of_nat (matching_initials w1 w2) / of_nat l * (2 / 10))"])
qed

lemma date_similarity_sym:
  "calculate_date_similarity self y1 y2 = calculate_date_similarity self y2 y1"
  by (cases y1; cases y2) (auto simp: calculate_date_similarity_def Let_def abs_minus_commute)

lemma place_similarity_sym:
  assumes "\<forall>a b. ratio (scorers self) a b = ratio (scorers self) b a"
  shows "calculate_place_similarity self p1 p2 = calculate_place_similarity self p2 p1"
proof -
  have r: "ratio (scorers self) a b = ratio (scorers self) b a" for a b using assms(1) by simp
  show ?thesis
    unfolding calculate_place_similarity_def Let_def
    by (simp add: r [of "dedup_normalize_text self p1"] Int_commute Un_commute
        disj_commute conj_commute)
qed

lemma overall_similarity_sym:
  assumes "\<forall>a b. ratio (scorers self) a b = ratio (scorers self) b a"
    and "\<forall>a b. token_set_ratio (scorers self) a b = token_set_ratio (scorers self) b a"
  shows "calculate_overall_similarity self r1 r2 = calculate_overall_similarity self r2 r1"
  unfolding calculate_overall_similarity_def
  by (simp only: title_similarity_sym [OF assms, of "get_or (Val []) (title r1)"]
      author_similarity_sym [OF assms(1), of "get_or (Val []) (author r1)"]
      date_similarity_sym [of self "get_or PyNone (publication_year r1)"]
      place_similarity_sym [OF assms(1), of "get_or (Val []) (publication_place r1)"])

text \<open>
  C5. When the scorers of rapidfuzz are symmetric, so is every signal: the score of
  \<open>similarity_score\<close> and its title, creator and year signals, and the title, author,
  date, place and overall scores of \<open>RecordDeduplicator\<close>, the \<open>ZeroDivisionError\<close> of
  the author score included.
\<close>

theorem similarity_symmetric:
  assumes "\<forall>a b. ratio (scorers self) a b = ratio (scorers self) b a"
    and "\<forall>a b. token_set_ratio (scorers self) a b = token_set_ratio (scorers self) b a"
    and "\<forall>f. rf = Some f \<longrightarrow> (\<forall>a b. f a b = f b a)"
  shows "similarity_score rf p1 p2 = similarity_score rf p2 p1 \<and>
         title_signal rf p1 p2 = title_signal rf p2 p1 \<and>
         creator_signal rf p1 p2 = creator_signal rf p2 p1 \<and>
         year_signal p1 p2 = year_signal p2 p1 \<and>
         calculate_overall_similarity self r1 r2 = calculate_overall_similarity self r2 r1 \<and>
         calculate_title_similarity self t1 t2 = calculate_title_similarity self t2 t1 \<and>
         calculate_author_similarity self a1 a2 = calculate_author_similarity self a2 a1 \<and>
         calculate_date_similarity self y1 y2 = calculate_date_similarity self y2 y1 \<and>
         calculate_place_similarity self q1 q2 = calculate_place_similarity self q2 q1"
  using similarity_score_sym [OF assms(3)] dedupe_signals_sym [OF assms(3)] year_signal_sym
    overall_similarity_sym [OF assms(1,2)] title_similarity_sym [OF assms(1,2)]
    author_similarity_sym [OF assms(1)] date_similarity_sym place_similarity_sym [OF assms(1)]
  by blast

theorem similarity_symmetric_witness:
  "similarity_score (Some word_set_sim) edition_1500 edition_1503
     = similarity_score (Some word_set_sim) edition_1503 edition_1500 \<and>
   similarity_score (Some word_set_sim) edition_1500 edition_1503 = 45000 / 7 \<and>
   calculate_overall_similarity default_deduplicator revolutionibus_vd16 revolutionibus_ustc
     = calculate_overall_similarity default_deduplicator revolutionibus_ustc revolutionibus_vd16"
proof -
  have h1: "\<forall>a b. ratio (scorers default_deduplicator) a b = ratio (scorers default_deduplicator) b a"
    by (simp add: default_deduplicator_def basic_fuzz_def word_set_sim_sym)
  have h2: "\<forall>a b. token_set_ratio (scorers default_deduplicator) a b
              = token_set_ratio (scorers default_deduplicator) b a"
    by (simp add: default_deduplicator_def basic_fuzz_def word_set_sim_sym)
  have h3: "\<forall>f. Some word_set_sim = Some f \<longrightarrow> (\<forall>a b. f a b = f b a)"
    using word_set_sim_sym by auto
  have v: "similarity_score (Some word_set_sim) edition_1500 edition_1503 = 45000 / 7"
    by code_simp
  from similarity_symmetric [OF h1 h2 h3] v show ?thesis by simp
qed


section \<open>Missing fields\<close>

lemma similarity_score_average:
  "similarity_score rf p1 p2 =
     100 * weighted_average [(6 / 10, title_signal rf p1 p2), (3 / 10, creator_signal rf p1 p2),
                             (1 / 10, year_signal p1 p2)]"
  by (cases "title_signal rf p1 p2"; cases "creator_signal rf p1 p2"; cases "year_signal p1 p2")
    (simp_all add: similarity_score_def add_signal_def weighted_average_def)

lemma overall_similarity_scores:
  assumes "calculate_overall_similarity self r1 r2 = Inr sc"
  shows "s_overall sc = sum_list (map (\<lambda>(f, w).
            score_of f (s_title sc) (s_author sc) (s_date sc) (s_place sc) * w) (weights self))"
    and "isna (get_or (Val []) (title r1)) \<or> isna (get_or (Val []) (title r2)) \<Longrightarrow> s_title sc = 0"
    and "isna (get_or (Val []) (author r1)) \<or> isna (get_or (Val []) (author r2)) \<Longrightarrow> s_author sc = 0"
    and "isna (get_or PyNone (publication_year r1)) \<or> isna (get_or PyNone (publication_year r2))
           \<Longrightarrow> s_date sc = 0"
    and "isna (get_or (Val []) (publication_place r1)) \<or> isna (get_or (Val []) (publication_place r2))
           \<Longrightarrow> s_place sc = 0"
proof -
  from assms obtain a where
    a: "calculate_author_similarity self
          (get_or (Val []) (author r1)) (get_or (Val []) (author r2)) = Inr a"
    by (auto simp: calculate_overall_similarity_def Let_def split: sum.splits)
  with assms have sc: "sc = \<lparr> s_title = calculate_title_similarity self
                (get_or (Val []) (title r1)) (get_or (Val []) (title r2)),
        s_author = a,
        s_date = calculate_date_similarity self
                        (get_or PyNone (publication_year r1))
                        (get_or PyNone (publication_year r2)),
        s_place = calculate_place_similarity self
                        (get_or (Val []) (publication_place r1))
                        (get_or (Val []) (publication_place r2)),
        s_overall = sum_list (map (\<lambda>(f, w). score_of f
            (calculate_title_similarity self
                (get_or (Val []) (title r1)) (get_or (Val []) (title r2))) a
            (calculate_date_similarity self
                        (get_or PyNone (publication_year r1))
                        (get_or PyNone (publication_year r2)))
            (calculate_place_similarity self
                        (get_or (Val []) (publication_place r1))
                        (get_or (Val []) (publication_place r2))) * w) (weights self)) \<rparr>"
    by (simp add: calculate_overall_similarity_def Let_def)
  show "s_overall sc = sum_list (map (\<lambda>(f, w).
            score_of f (s_title sc) (s_author sc) (s_date sc) (s_place sc) * w) (weights self))"
    by (simp add: sc)
  show "s_title sc = 0"
    if "isna (get_or (Val []) (title r1)) \<or> isna (get_or (Val []) (title r2))"
    using that by (simp add: sc calculate_title_similarity_def)
  show "s_author sc = 0"
    if "isna (get_or (Val []) (author r1)) \<or> isna (get_or (Val []) (author r2))"
    using that a by (simp add: sc calculate_author_similarity_def)
  show "s_date sc = 0"
    if "isna (get_or PyNone (publication_year r1)) \<or> isna (get_or PyNone (publication_year r2))"
    using that by (auto simp add: sc calculate_date_similarity_def isna_def split: pyval.splits)
  show "s_place sc = 0"
    if "isna (get_or (Val []) (publication_place r1)) \<or> isna (get_or (Val []) (publication_place r2))"
    using that by (simp add: sc calculate_place_similarity_def)
qed

lemma null_author_scored:
  assumes "isna (get_or (Val []) (author r1)) \<or> isna (get_or (Val []) (author r2))"
  shows "\<exists>sc. calculate_overall_similarity self r1 r2 = Inr sc"
  using assms by (simp add: calculate_overall_similarity_def Let_def calculate_author_similarity_def)

text \<open>
  C2, as the code has it. In \<open>similarity_score\<close> a signal whose field is missing, empty
  or zero on either side is skipped, and the score is a fixed positive multiple of the
  weighted average of the signals that are there (0 when there is none). In
  \<open>calculate_overall_similarity\<close> nothing is skipped: a title, author, year or place that
  is null on either side gives the signal 0, the overall score is the sum of all signals
  with their configured weights, and a pair with a null author is scored.
\<close>

theorem missing_fields:
  "(\<exists>K>0. \<forall>rf p1 p2. similarity_score rf p1 p2 =
        K * weighted_average [(6 / 10, title_signal rf p1 p2), (3 / 10, creator_signal rf p1 p2),
                              (1 / 10, year_signal p1 p2)]) \<and>
   (\<not> (truthy_str (title_normalized p1) \<and> truthy_str (title_normalized p2))
      \<longrightarrow> title_signal rf p1 p2 = None) \<and>
   (\<not> (truthy_str (creator_normalized p1) \<and> truthy_str (creator_normalized p2))
      \<longrightarrow> creator_signal rf p1 p2 = None) \<and>
   (\<not> (truthy_int (pub_year p1) \<and> truthy_int (pub_year p2)) \<longrightarrow> year_signal p1 p2 = None) \<and>
   (isna (get_or (Val []) (author r1)) \<or> isna (get_or (Val []) (author r2)) \<longrightarrow>
      (\<exists>sc. calculate_overall_similarity self r1 r2 = Inr sc)) \<and>
   (\<forall>sc. calculate_overall_similarity self r1 r2 = Inr sc \<longrightarrow>
      s_overall sc = sum_list (map (\<lambda>(f, w).
         score_of f (s_title sc) (s_author sc) (s_date sc) (s_place sc) * w) (weights self)) \<and>
      (isna (get_or (Val []) (title r1)) \<or> isna (get_or (Val []) (title r2))
         \<longrightarrow> s_title sc = 0) \<and>
      (isna (get_or (Val []) (author r1)) \<or> isna (get_or (Val []) (author r2))
         \<longrightarrow> s_author sc = 0) \<and>
      (isna (get_or PyNone (publication_year r1)) \<or> isna (get_or PyNone (publication_year r2))
         \<longrightarrow> s_date sc = 0) \<and>
      (isna (get_or (Val []) (publication_place r1)) \<or>
       isna (get_or (Val []) (publication_place r2)) \<longrightarrow> s_place sc = 0))"
proof (intro conjI)
  show "\<exists>K>0. \<forall>rf p1 p2. similarity_score rf p1 p2 =
        K * weighted_average [(6 / 10, title_signal rf p1 p2), (3 / 10, creator_signal rf p1 p2),
                              (1 / 10, year_signal p1 p2)]"
    using similarity_score_average by (intro exI [of _ 100]) simp
  show "\<not> (truthy_str (title_normalized p1) \<and> truthy_str (title_normalized p2))
      \<longrightarrow> title_signal rf p1 p2 = None"
    by (simp add: title_signal_def)
  show "\<not> (truthy_str (creator_normalized p1) \<and> truthy_str (creator_normalized p2))
      \<longrightarrow> creator_signal rf p1 p2 = None"
    by (simp add: creator_signal_def)
  show "\<not> (truthy_int (pub_year p1) \<and> truthy_int (pub_year p2)) \<longrightarrow> year_signal p1 p2 = None"
    by (simp add: year_signal_def)
  show "isna (get_or (Val []) (author r1)) \<or> isna (get_or (Val []) (author r2)) \<longrightarrow>
      (\<exists>sc. calculate_overall_similarity self r1 r2 = Inr sc)"
    using null_author_scored by blast
  show "\<forall>sc. calculate_overall_similarity self r1 r2 = Inr sc \<longrightarrow>
      s_overall sc = sum_list (map (\<lambda>(f, w).
         score_of f (s_title sc) (s_author sc) (s_date sc) (s_place sc) * w) (weights self)) \<and>
      (isna (get_or (Val []) (title r1)) \<or> isna (get_or (Val []) (title r2))
         \<longrightarrow> s_title sc = 0) \<and>
      (isna (get_or (Val []) (author r1)) \<or> isna (get_or (Val []) (author r2))
         \<longrightarrow> s_author sc = 0) \<and>
      (isna (get_or PyNone (publication_year r1)) \<or> isna (get_or PyNone (publication_year r2))
         \<longrightarrow> s_date sc = 0) \<and>
      (isna (get_or (Val []) (publication_place r1)) \<or>
       isna (get_or (Val []) (publication_place r2)) \<longrightarrow> s_place sc = 0)"
    using overall_similarity_scores [of self r1 r2] by blast
qed

theorem missing_fields_witness:
  "title_signal None year_only_a year_only_b = None \<and>
   creator_signal None year_only_a year_only_b = None \<and>
   year_signal title_only_a title_only_b = None \<and>
   isna (get_or (Val []) (author revolutionibus_vd16)) \<and>
   (\<exists>sc. calculate_overall_similarity default_deduplicator revolutionibus_vd16 revolutionibus_ustc
            = Inr sc \<and> s_author sc = 0)"
proof -
  have t: "\<not> (truthy_str (title_normalized year_only_a) \<and> truthy_str (title_normalized year_only_b))"
    by (simp add: year_only_a_def truthy_str_def)
  have c: "\<not> (truthy_str (creator_normalized year_only_a) \<and>
               truthy_str (creator_normalized year_only_b))"
    by (simp add: year_only_a_def truthy_str_def)
  have y: "\<not> (truthy_int (pub_year title_only_a) \<and> truthy_int (pub_year title_only_b))"
    by (simp add: title_only_a_def truthy_int_def)
  have n: "isna (get_or (Val []) (author revolutionibus_vd16))"
    by (simp add: revolutionibus_vd16_def get_or_def isna_def)
  note m1 = missing_fields [of year_only_a year_only_b None revolutionibus_vd16
      revolutionibus_ustc default_deduplicator]
  note m2 = missing_fields [of title_only_a title_only_b None revolutionibus_vd16
      revolutionibus_ustc default_deduplicator]
  from m1 t c have "title_signal None year_only_a year_only_b = None"
    "creator_signal None year_only_a year_only_b = None" by blast+
  moreover from m2 y have "year_signal title_only_a title_only_b = None" by blast
  moreover from m1 n have "\<exists>sc. calculate_overall_similarity default_deduplicator
      revolutionibus_vd16 revolutionibus_ustc = Inr sc \<and> s_author sc = 0" by blast
  ultimately show ?thesis using n by blast
qed

text \<open>
  C2, as the specification states it, fails for \<open>calculate_overall_similarity\<close>: with the
  author null on one side and title, year and place equal, the overall score is 0.7, the
  weighted average of the three signals that are there is 1.
\<close>

theorem null_author_not_renormalised:
  "map_sum id (\<lambda>sc. (s_overall sc, present_average revolutionibus_vd16 revolutionibus_ustc sc))
     (calculate_overall_similarity default_deduplicator revolutionibus_vd16 revolutionibus_ustc)
   = Inr (7 / 10, 1)"
  by code_simp

end
